theory Spec2Isabelle
  imports Main
begin

text \<open>
  A model of the URL shortener: the cache helpers of \<open>src/config/redis.js\<close>, the
  store access of \<open>src/models/url.model.js\<close>, the guards of
  \<open>src/middleware/rateLimiter.js\<close>, the handlers of
  \<open>src/controllers/url.controller.js\<close> and the routes that create, resolve and delete.
  A handler is a function from the state it finds (the tables and Redis) to its answer and
  the state it leaves. The database is taken to answer every query; of its errors only the
  violation of the unique constraint on \<open>short_code\<close> and a timestamp that is not a date
  are modelled. Redis may fail: a
  failed command goes through the \<open>catch\<close> of its helper. The analytics and health
  routes are left out.
\<close>

section \<open>Data model\<close>

text \<open>
  A row of the table \<open>urls\<close> of \<open>database/schema.sql\<close>. Times are milliseconds on one
  clock, shared by \<open>Date.now()\<close> and \<open>CURRENT_TIMESTAMP\<close>.
\<close>

record url_row =
  row_id :: nat
  short_code :: string
  original_url :: string
  created_at :: int
  expires_at :: "int option"
  click_count :: nat
  last_accessed :: "int option"
  creator_ip :: string
  is_active :: bool

text \<open>A row of the table \<open>url_analytics\<close>.\<close>

record analytics_row =
  url_id :: "nat option"
  accessed_at :: int
  ip_address :: string
  user_agent :: "string option"
  referer :: "string option"

text \<open>
  The JSON values the application stores in Redis: a row of \<open>urls\<close>, a counter
  and the object \<open>{ unblockAt }\<close>.
\<close>

datatype jsval = JRow url_row | JNum int | JBlock int

text \<open>
  The shared state: the two tables, the sequence behind \<open>BIGSERIAL\<close>, and Redis as a map
  from keys to a value and the time at which the key expires (if it has one).
\<close>

record state =
  urls :: "url_row list"
  url_analytics :: "analytics_row list"
  next_id :: nat
  redis :: "string \<Rightarrow> (jsval \<times> int option) option"

text \<open>
  What a request sees of its surroundings: the clock, the environment variables
  (\<open>REDIS_TTL\<close> and \<open>RATE_LIMIT_MAX_REQUESTS\<close> after \<open>parseInt\<close>, \<open>None\<close> for
  \<open>NaN\<close>), whether the Redis commands of this request succeed, and the two library
  functions whose code is outside the repository: the stream of indices that \<open>nanoid\<close>
  draws and the \<open>isURL\<close> test of the validator.
\<close>

record env =
  now :: int
  CACHE_ENABLED :: "string option"
  REDIS_TTL :: "int option"
  RATE_LIMIT_MAX_REQUESTS :: "int option"
  redis_up :: bool
  entropy :: "nat \<Rightarrow> nat"
  isURL :: "string \<Rightarrow> bool"

section \<open>config/redis.js: the cache helpers\<close>

text \<open>\<open>!process.env.CACHE_ENABLED || process.env.CACHE_ENABLED === 'false'\<close>\<close>

definition cache_disabled :: "env \<Rightarrow> bool" where
  "cache_disabled e =
     (case CACHE_ENABLED e of None \<Rightarrow> True | Some v \<Rightarrow> v = [] \<or> v = ''false'')"

text \<open>\<open>parseInt(process.env.REDIS_TTL) || 86400\<close>\<close>

definition default_ttl :: "env \<Rightarrow> int" where
  "default_ttl e =
     (case REDIS_TTL e of None \<Rightarrow> 86400 | Some n \<Rightarrow> if n = 0 then 86400 else n)"

text \<open>What Redis holds under a key at a time: an expired key is gone.\<close>

definition live :: "int \<Rightarrow> (string \<Rightarrow> (jsval \<times> int option) option) \<Rightarrow> string \<Rightarrow> jsval option" where
  "live t m k =
     (case m k of
        None \<Rightarrow> None
      | Some (v, None) \<Rightarrow> Some v
      | Some (v, Some x) \<Rightarrow> if t < x then Some v else None)"

text \<open>\<open>cache.get\<close>: \<open>null\<close> when caching is disabled, on a miss and on a Redis error.\<close>

definition cache_get :: "env \<Rightarrow> string \<Rightarrow> state \<Rightarrow> jsval option" where
  "cache_get e key s =
     (if cache_disabled e then None
      else if \<not> redis_up e then None
      else live (now e) (redis s) key)"

text \<open>
  \<open>cache.set\<close>: \<open>SETEX key ttl value\<close>. Redis refuses a time to live that is not
  positive; the helper logs the error and goes on.
\<close>

definition cache_set :: "env \<Rightarrow> string \<Rightarrow> jsval \<Rightarrow> int \<Rightarrow> state \<Rightarrow> state" where
  "cache_set e key v ttl s =
     (if cache_disabled e then s
      else if \<not> redis_up e then s
      else if ttl \<le> 0 then s
      else s\<lparr>redis := (redis s)(key := Some (v, Some (now e + ttl * 1000)))\<rparr>)"

text \<open>\<open>cache.del\<close>: \<open>DEL key\<close>, with no test of \<open>CACHE_ENABLED\<close>.\<close>

definition cache_del :: "env \<Rightarrow> string \<Rightarrow> state \<Rightarrow> state" where
  "cache_del e key s =
     (if \<not> redis_up e then s
      else s\<lparr>redis := (redis s)(key := None)\<rparr>)"

text \<open>
  \<open>cache.increment\<close>: \<open>INCR key\<close>, then \<open>EXPIRE key ttl\<close> when the new value is 1;
  again with no test of \<open>CACHE_ENABLED\<close>. \<open>INCR\<close> fails on a value that is not a
  64-bit integer or would leave that range; every error gives 0.
\<close>

definition cache_increment :: "env \<Rightarrow> string \<Rightarrow> int \<Rightarrow> state \<Rightarrow> int \<times> state" where
  "cache_increment e key ttl s =
     (if \<not> redis_up e then (0, s)
      else
        (case redis s key of
           Some (JNum n, x) \<Rightarrow>
             (if (case x of None \<Rightarrow> True | Some t \<Rightarrow> now e < t) then
                (if n < - (2 ^ 63) \<or> 2 ^ 63 - 1 \<le> n then (0, s)
                 else
                   (n + 1,
                    s\<lparr>redis := (redis s)(key :=
                         Some (JNum (n + 1),
                               if n + 1 = 1 then Some (now e + ttl * 1000) else x))\<rparr>))
              else (1, s\<lparr>redis := (redis s)(key := Some (JNum 1, Some (now e + ttl * 1000)))\<rparr>))
         | Some (v, x) \<Rightarrow>
             (if (case x of None \<Rightarrow> True | Some t \<Rightarrow> now e < t) then (0, s)
              else (1, s\<lparr>redis := (redis s)(key := Some (JNum 1, Some (now e + ttl * 1000)))\<rparr>))
         | None \<Rightarrow> (1, s\<lparr>redis := (redis s)(key := Some (JNum 1, Some (now e + ttl * 1000)))\<rparr>)))"

text \<open>JavaScript truthiness of what \<open>cache.get\<close> returns.\<close>

fun truthy :: "jsval option \<Rightarrow> bool" where
  "truthy None = False"
| "truthy (Some (JNum n)) = (n \<noteq> 0)"
| "truthy (Some v) = True"

section \<open>models/url.model.js\<close>

definition alphabet :: string where
  "alphabet = ''0123456789ABCDEFGHJKLMNPQRSTUVWXYZabcdefghjkmnpqrstuvwxyz''"

text \<open>
  \<open>customAlphabet(alphabet, size)()\<close>. The package \<open>nanoid\<close> is outside the repository:
  a call is modelled as that many symbols of the alphabet picked by the indices that the
  request's entropy gives from position \<open>k\<close> on.
\<close>

definition nanoid :: "nat \<Rightarrow> (nat \<Rightarrow> nat) \<Rightarrow> nat \<Rightarrow> string" where
  "nanoid len rnd k = map (\<lambda>i. alphabet ! (rnd i mod length alphabet)) [k ..< k + len]"

text \<open>\<open>SELECT id FROM urls WHERE short_code = $1\<close>: every row, active or not.\<close>

definition rows_with_code :: "string \<Rightarrow> url_row list \<Rightarrow> url_row list" where
  "rows_with_code c db = filter (\<lambda>r. short_code r = c) db"

text \<open>
  The loop of \<open>generateUniqueShortCode\<close>, by the number of attempts left; \<open>k\<close> counts
  the symbols drawn so far.
\<close>

fun generate_from :: "nat \<Rightarrow> (nat \<Rightarrow> nat) \<Rightarrow> nat \<Rightarrow> url_row list \<Rightarrow> string" where
  "generate_from 0 rnd k db = nanoid 10 rnd k"
| "generate_from (Suc n) rnd k db =
     (let shortCode = nanoid 7 rnd k
      in if rows_with_code shortCode db = [] then shortCode
         else generate_from n rnd (k + 7) db)"

definition generateUniqueShortCode :: "nat \<Rightarrow> (nat \<Rightarrow> nat) \<Rightarrow> url_row list \<Rightarrow> string" where
  "generateUniqueShortCode maxAttempts rnd db = generate_from maxAttempts rnd 0 db"

text \<open>
  The errors of the store that are modelled: the unique constraint on \<open>short_code\<close>,
  and a timestamp parameter that is not a date.
\<close>

datatype db_error = UniqueViolation | InvalidTimestamp

text \<open>
  \<open>new Date(v)\<close> is a date only for \<open>v\<close> within 8.64e15 milliseconds of the epoch;
  beyond that it is \<open>Invalid Date\<close>.
\<close>

definition valid_date :: "int \<Rightarrow> bool" where
  "valid_date v = (- 8640000000000000 \<le> v \<and> v \<le> 8640000000000000)"

text \<open>
  \<open>URLModel.create\<close>: a code from the generator with its default of 5 attempts,
  \<open>expiresAt\<close> when \<open>expiresIn\<close> is truthy, and the \<open>INSERT\<close>. The store refuses
  an \<open>expiresAt\<close> that is \<open>Invalid Date\<close> when it reads the parameters, and the unique
  constraint on \<open>short_code\<close> refuses a code that any row already has; an \<open>INSERT\<close>
  refused by the constraint has still taken a value of the sequence.
\<close>

definition create :: "env \<Rightarrow> string \<Rightarrow> string \<Rightarrow> int option \<Rightarrow> state \<Rightarrow> (db_error + url_row) \<times> state" where
  "create e originalUrl creatorIp expiresIn s =
     (let shortCode = generateUniqueShortCode 5 (entropy e) (urls s);
          expiresAt = (case expiresIn of
                         None \<Rightarrow> None
                       | Some n \<Rightarrow> if n \<noteq> 0 then Some (now e + n * 1000) else None);
          row = \<lparr>row_id = next_id s, short_code = shortCode, original_url = originalUrl,
                 created_at = now e, expires_at = expiresAt, click_count = 0,
                 last_accessed = None, creator_ip = creatorIp, is_active = True\<rparr>
      in if (case expiresAt of None \<Rightarrow> False | Some v \<Rightarrow> \<not> valid_date v)
         then (Inl InvalidTimestamp, s)
         else if rows_with_code shortCode (urls s) \<noteq> []
         then (Inl UniqueViolation, s\<lparr>next_id := next_id s + 1\<rparr>)
         else (Inr row, s\<lparr>urls := urls s @ [row], next_id := next_id s + 1\<rparr>))"

text \<open>\<open>is_active = TRUE AND (expires_at IS NULL OR expires_at > CURRENT_TIMESTAMP)\<close>\<close>

definition visible :: "env \<Rightarrow> url_row \<Rightarrow> bool" where
  "visible e r =
     (is_active r \<and> (case expires_at r of None \<Rightarrow> True | Some x \<Rightarrow> now e < x))"

text \<open>\<open>result.rows[0]\<close>: \<open>undefined\<close> on an empty result.\<close>

definition first_row :: "url_row list \<Rightarrow> url_row option" where
  "first_row rs = (case rs of [] \<Rightarrow> None | r # _ \<Rightarrow> Some r)"

definition findByShortCode :: "env \<Rightarrow> string \<Rightarrow> state \<Rightarrow> url_row option" where
  "findByShortCode e shortCode s =
     first_row (filter (\<lambda>r. short_code r = shortCode \<and> visible e r) (urls s))"

text \<open>
  \<open>ORDER BY created_at DESC LIMIT 1\<close>: a row with the greatest \<open>created_at\<close>. Among
  rows of one \<open>created_at\<close> the database may return any; the model returns the first.
\<close>

fun newest :: "url_row list \<Rightarrow> url_row option" where
  "newest [] = None"
| "newest (r # rs) =
     (case newest rs of
        None \<Rightarrow> Some r
      | Some b \<Rightarrow> if created_at b \<le> created_at r then Some r else Some b)"

definition findByOriginalUrl :: "env \<Rightarrow> string \<Rightarrow> state \<Rightarrow> url_row option" where
  "findByOriginalUrl e originalUrl s =
     newest (filter (\<lambda>r. original_url r = originalUrl \<and> visible e r) (urls s))"

text \<open>
  \<open>URLModel.recordAnalytics\<close>: the \<open>INSERT\<close> into \<open>url_analytics\<close> and, with it, the
  trigger \<open>update_click_count\<close> of the schema. The foreign key refuses an \<open>url_id\<close>
  that no row of \<open>urls\<close> has; nobody awaits the call, so the error changes nothing.
\<close>

definition recordAnalytics :: "env \<Rightarrow> nat option \<Rightarrow> string \<Rightarrow> string option \<Rightarrow> string option \<Rightarrow> state \<Rightarrow> state" where
  "recordAnalytics e urlId ipAddress userAgent ref s =
     (if (case urlId of None \<Rightarrow> False | Some i \<Rightarrow> filter (\<lambda>r. row_id r = i) (urls s) = [])
      then s
      else
        s\<lparr>url_analytics := url_analytics s @
             [\<lparr>url_id = urlId, accessed_at = now e, ip_address = ipAddress,
               user_agent = userAgent, referer = ref\<rparr>],
          urls := map (\<lambda>r. if Some (row_id r) = urlId
                             then r\<lparr>click_count := click_count r + 1,
                                    last_accessed := Some (now e)\<rparr>
                             else r) (urls s)\<rparr>)"

text \<open>
  \<open>URLModel.delete\<close>: \<open>UPDATE urls SET is_active = FALSE WHERE short_code = $1
  RETURNING *\<close>, with no condition on \<open>is_active\<close>.
\<close>

definition delete :: "string \<Rightarrow> state \<Rightarrow> url_row option \<times> state" where
  "delete shortCode s =
     (let db = map (\<lambda>r. if short_code r = shortCode then r\<lparr>is_active := False\<rparr> else r) (urls s)
      in (first_row (rows_with_code shortCode db), s\<lparr>urls := db\<rparr>))"

section \<open>middleware/rateLimiter.js\<close>

text \<open>
  The six patterns of \<open>trackSuspiciousUrl\<close> are literal texts searched without regard
  to the case of ASCII letters, two of them anchored at the end of the input.
\<close>

definition lower_char :: "char \<Rightarrow> char" where
  "lower_char c =
     (let n = (of_char c :: nat) in if 65 \<le> n \<and> n \<le> 90 then char_of (n + 32) else c)"

fun starts_with :: "string \<Rightarrow> string \<Rightarrow> bool" where
  "starts_with [] s = True"
| "starts_with (p # ps) [] = False"
| "starts_with (p # ps) (c # cs) = (p = c \<and> starts_with ps cs)"

fun contains :: "string \<Rightarrow> string \<Rightarrow> bool" where
  "contains pat [] = (pat = [])"
| "contains pat (c # cs) = (starts_with pat (c # cs) \<or> contains pat cs)"

definition ends_with :: "string \<Rightarrow> string \<Rightarrow> bool" where
  "ends_with pat s = starts_with (rev pat) (rev s)"

definition isSuspicious :: "string \<Rightarrow> bool" where
  "isSuspicious url =
     (let u = map lower_char url
      in contains ''malware'' u \<or> contains ''phishing'' u \<or> ends_with ''.exe'' u \<or>
         ends_with ''.scr'' u \<or> contains ''bit.ly'' u \<or> contains ''tinyurl.com'' u)"

definition trackSuspiciousUrl :: "env \<Rightarrow> string \<Rightarrow> string \<Rightarrow> state \<Rightarrow> bool \<times> state" where
  "trackSuspiciousUrl e ip url s =
     (if isSuspicious url then (True, snd (cache_increment e (''abuse:'' @ ip) 3600 s))
      else (False, s))"

text \<open>What a handler or a middleware answers.\<close>

datatype response =
    Created201 string string "int option" int
  | Existing200 "string option" "string option"
  | Redirect301 "string option"
  | Deleted200
  | Rejected400
  | ValidationFailed400
  | NotFound404
  | StillBlocked429 "int option"
  | NowBlocked429 int
  | TooManyRequests429
  | TooManyUrls429
  | ServerError500

text \<open>Reading a field of a parsed value: \<open>undefined\<close> where the value has no such field.\<close>

fun unblockAt_of :: "jsval \<Rightarrow> int option" where
  "unblockAt_of (JBlock t) = Some t"
| "unblockAt_of v = None"

fun short_code_of :: "jsval \<Rightarrow> string option" where
  "short_code_of (JRow r) = Some (short_code r)"
| "short_code_of v = None"

fun original_url_of :: "jsval \<Rightarrow> string option" where
  "original_url_of (JRow r) = Some (original_url r)"
| "original_url_of v = None"

fun id_of :: "jsval \<Rightarrow> nat option" where
  "id_of (JRow r) = Some (row_id r)"
| "id_of v = None"

text \<open>\<open>suspiciousCount > 50\<close>, false for a value that is not a number.\<close>

fun over_50 :: "jsval \<Rightarrow> bool" where
  "over_50 (JNum n) = (50 < n)"
| "over_50 v = False"

text \<open>
  \<open>abuseDetection\<close>: \<open>None\<close> stands for \<open>next()\<close>. The cache helpers catch
  their own errors, so the \<open>catch\<close> of this middleware is never entered.
\<close>

definition abuseDetection :: "env \<Rightarrow> string \<Rightarrow> state \<Rightarrow> response option \<times> state" where
  "abuseDetection e ip s =
     (let isBlocked = cache_get e (''blocked:'' @ ip) s
      in if truthy isBlocked then (Some (StillBlocked429 (unblockAt_of (the isBlocked))), s)
         else
           (let c = cache_get e (''abuse:'' @ ip) s;
                suspiciousCount = (if truthy c then the c else JNum 0)
            in if over_50 suspiciousCount
               then (let unblockAt = now e + 3600000
                     in (Some (NowBlocked429 unblockAt),
                         cache_set e (''blocked:'' @ ip) (JBlock unblockAt) 3600 s))
               else (None, s)))"

text \<open>
  The package \<open>express-rate-limit\<close> is outside the repository. Modelled from the spec:
  a limiter counts the requests of a key in a fixed window and rejects a request once
  the count exceeds \<open>max\<close>. The package reads the count from the field \<open>totalHits\<close>
  of what the \<open>increment\<close> of its store returns; where that field is \<open>undefined\<close>
  (\<open>None\<close>) the comparison with \<open>max\<close> is false. A limiter built with no \<open>store\<close>
  option counts in the memory of its own process, the default of the package;
  \<open>memstore\<close> is that memory, a hit count and the end of the window for each key.
\<close>

definition over_limit :: "int \<Rightarrow> int option \<Rightarrow> bool" where
  "over_limit mx totalHits = (case totalHits of None \<Rightarrow> False | Some h \<Rightarrow> mx < h)"

type_synonym memstore = "string \<Rightarrow> (int \<times> int) option"

definition memory_increment :: "int \<Rightarrow> env \<Rightarrow> string \<Rightarrow> memstore \<Rightarrow> int \<times> memstore" where
  "memory_increment windowMs e key m =
     (case m key of
        None \<Rightarrow> (1, m(key := Some (1, now e + windowMs)))
      | Some (hits, resetTime) \<Rightarrow>
          if now e < resetTime then (hits + 1, m(key := Some (hits + 1, resetTime)))
          else (1, m(key := Some (1, now e + windowMs))))"

text \<open>
  \<open>globalLimiter\<close>: \<open>max\<close> is \<open>parseInt(process.env.RATE_LIMIT_MAX_REQUESTS) || 100\<close>,
  and its store counts with \<open>cache.increment(`ratelimit:${key}`, 900)\<close>. The
  \<open>increment\<close> of that store returns the number itself, which has no field
  \<open>totalHits\<close>: the limiter counts in Redis and lets every request pass.
\<close>

definition globalLimiter :: "env \<Rightarrow> string \<Rightarrow> state \<Rightarrow> response option \<times> state" where
  "globalLimiter e ip s =
     (let mx = (case RATE_LIMIT_MAX_REQUESTS e of
                  None \<Rightarrow> 100
                | Some n \<Rightarrow> if n = 0 then 100 else n);
          (hits, s') = cache_increment e (''ratelimit:'' @ ip) 900 s;
          totalHits = None
      in (if over_limit mx totalHits then Some TooManyRequests429 else None, s'))"

text \<open>\<open>createUrlLimiter\<close>: 10 in 15 minutes, and no \<open>store\<close> option.\<close>

definition createUrlLimiter :: "env \<Rightarrow> string \<Rightarrow> memstore \<Rightarrow> response option \<times> memstore" where
  "createUrlLimiter e ip m =
     (let (hits, m') = memory_increment (15 * 60 * 1000) e ip m
      in (if over_limit 10 (Some hits) then Some TooManyUrls429 else None, m'))"

section \<open>The validator\<close>

text \<open>
  \<open>validateUrlCreation\<close> with \<open>handleValidationErrors\<close>. An absent \<open>url\<close> is the
  empty string, an absent \<open>expiresIn\<close> is \<open>None\<close>.
\<close>

definition validateUrlCreation :: "env \<Rightarrow> string \<Rightarrow> int option \<Rightarrow> bool" where
  "validateUrlCreation e url expiresIn =
     (url \<noteq> [] \<and> isURL e url \<and> length url \<le> 2048 \<and>
      (case expiresIn of None \<Rightarrow> True | Some n \<Rightarrow> 60 \<le> n \<and> n \<le> 31536000))"

section \<open>controllers/url.controller.js\<close>

text \<open>
  The first block of \<open>URLController.createShortUrl\<close> (\<open>Check if URL already exists in
  cache or database\<close>): the value of \<open>existingUrl\<close> after it, and the state.
\<close>

definition lookup_existing :: "env \<Rightarrow> string \<Rightarrow> state \<Rightarrow> jsval option \<times> state" where
  "lookup_existing e url s =
     (let cacheKey = ''url:'' @ url;
          cached = cache_get e cacheKey s
      in if \<not> truthy cached then
           (case findByOriginalUrl e url s of
              None \<Rightarrow> (None, s)
            | Some r \<Rightarrow> (Some (JRow r), cache_set e cacheKey (JRow r) (default_ttl e) s))
         else (cached, s))"

text \<open>
  \<open>URLController.createShortUrl\<close>. The \<open>catch\<close> of the handler turns the error of the
  \<open>INSERT\<close> into the answer 500.
\<close>

definition createShortUrl :: "env \<Rightarrow> string \<Rightarrow> string \<Rightarrow> int option \<Rightarrow> state \<Rightarrow> response \<times> state" where
  "createShortUrl e ip url expiresIn s =
     (let (suspicious, s1) = trackSuspiciousUrl e ip url s
      in if suspicious then (Rejected400, s1)
         else
           (let (existingUrl, s2) = lookup_existing e url s1
            in if truthy existingUrl \<and> (case expiresIn of None \<Rightarrow> True | Some n \<Rightarrow> n = 0)
               then (Existing200 (short_code_of (the existingUrl))
                                 (original_url_of (the existingUrl)), s2)
               else
                 (case create e url ip expiresIn s2 of
                    (Inl err, s3) \<Rightarrow> (ServerError500, s3)
                  | (Inr newUrl, s3) \<Rightarrow>
                      (Created201 (short_code newUrl) (original_url newUrl)
                                  (expires_at newUrl) (created_at newUrl),
                       cache_set e (''url:'' @ url) (JRow newUrl) (default_ttl e)
                         (cache_set e (''short:'' @ short_code newUrl) (JRow newUrl)
                            (default_ttl e) s3)))))"

text \<open>
  \<open>URLController.redirectToOriginal\<close>. The analytics are recorded by a task that runs
  after the answer is decided; the state returned is the one after that task.
\<close>

definition redirectToOriginal :: "env \<Rightarrow> string \<Rightarrow> string \<Rightarrow> string option \<Rightarrow> string option \<Rightarrow> state \<Rightarrow> response \<times> state" where
  "redirectToOriginal e ip shortCode userAgent ref s =
     (let cacheKey = ''short:'' @ shortCode;
          cached = cache_get e cacheKey s
      in if \<not> truthy cached then
           (case findByShortCode e shortCode s of
              None \<Rightarrow> (NotFound404, s)
            | Some r \<Rightarrow>
                (Redirect301 (Some (original_url r)),
                 recordAnalytics e (Some (row_id r)) ip userAgent ref
                   (cache_set e cacheKey (JRow r) (default_ttl e) s)))
         else
           (Redirect301 (original_url_of (the cached)),
            recordAnalytics e (id_of (the cached)) ip userAgent ref s))"

text \<open>\<open>URLController.deleteShortUrl\<close>\<close>

definition deleteShortUrl :: "env \<Rightarrow> string \<Rightarrow> state \<Rightarrow> response \<times> state" where
  "deleteShortUrl e shortCode s =
     (case delete shortCode s of
        (None, s1) \<Rightarrow> (NotFound404, s1)
      | (Some url, s1) \<Rightarrow>
          (Deleted200,
           cache_del e (''url:'' @ original_url url) (cache_del e (''short:'' @ shortCode) s1)))"

section \<open>The routes and the application\<close>

text \<open>
  The requests of the three routes that create, resolve and delete: the client's
  address comes first.
\<close>

datatype request =
    PostShorten string string "int option"
  | GetShortCode string string "string option" "string option"
  | DeleteShortCode string string

text \<open>
  \<open>router.post('/shorten', createUrlLimiter, abuseDetection, validateUrlCreation,
  handleValidationErrors, URLController.createShortUrl)\<close>. The memory of the serving
  process goes with the shared state.
\<close>

definition post_shorten :: "env \<Rightarrow> string \<Rightarrow> string \<Rightarrow> int option \<Rightarrow> memstore \<times> state \<Rightarrow> response \<times> memstore \<times> state" where
  "post_shorten e ip url expiresIn ps =
     (case createUrlLimiter e ip (fst ps) of
        (Some r, m1) \<Rightarrow> (r, m1, snd ps)
      | (None, m1) \<Rightarrow>
          (case abuseDetection e ip (snd ps) of
             (Some r, s1) \<Rightarrow> (r, m1, s1)
           | (None, s1) \<Rightarrow>
               if \<not> validateUrlCreation e url expiresIn then (ValidationFailed400, m1, s1)
               else (let (r, s2) = createShortUrl e ip url expiresIn s1 in (r, m1, s2))))"

text \<open>
  The application: \<open>app.use(globalLimiter)\<close>, then the routes under \<open>/api\<close> and the
  redirect route.
\<close>

fun app :: "env \<Rightarrow> request \<Rightarrow> memstore \<times> state \<Rightarrow> response \<times> memstore \<times> state" where
  "app e (PostShorten ip url expiresIn) (m, s) =
     (case globalLimiter e ip s of
        (Some r, s1) \<Rightarrow> (r, m, s1)
      | (None, s1) \<Rightarrow> post_shorten e ip url expiresIn (m, s1))"
| "app e (GetShortCode ip shortCode userAgent ref) (m, s) =
     (case globalLimiter e ip s of
        (Some r, s1) \<Rightarrow> (r, m, s1)
      | (None, s1) \<Rightarrow>
          (let (r, s2) = redirectToOriginal e ip shortCode userAgent ref s1 in (r, m, s2)))"
| "app e (DeleteShortCode ip shortCode) (m, s) =
     (case globalLimiter e ip s of
        (Some r, s1) \<Rightarrow> (r, m, s1)
      | (None, s1) \<Rightarrow> (let (r, s2) = deleteShortUrl e shortCode s1 in (r, m, s2)))"

section \<open>Inputs for the examples\<close>

definition env0 :: env where
  "env0 = \<lparr>now = 0, CACHE_ENABLED = Some ''true'', REDIS_TTL = None,
           RATE_LIMIT_MAX_REQUESTS = None, redis_up = True, entropy = (\<lambda>i. i),
           isURL = (\<lambda>u. True)\<rparr>"

definition row1 :: url_row where
  "row1 = \<lparr>row_id = 1, short_code = ''0123456'', original_url = ''http://example.com'',
           created_at = 0, expires_at = None, click_count = 0, last_accessed = None,
           creator_ip = ''1.2.3.4'', is_active = True\<rparr>"

definition row_gone :: url_row where
  "row_gone = \<lparr>row_id = 2, short_code = ''0000000000'', original_url = ''http://example.org'',
           created_at = 0, expires_at = None, click_count = 0, last_accessed = None,
           creator_ip = ''1.2.3.4'', is_active = False\<rparr>"

definition row_zero :: url_row where
  "row_zero = \<lparr>row_id = 3, short_code = ''0000000'', original_url = ''http://example.net'',
           created_at = 0, expires_at = None, click_count = 0, last_accessed = None,
           creator_ip = ''1.2.3.4'', is_active = False\<rparr>"

definition s_gone :: state where
  "s_gone = \<lparr>urls = [row_gone], url_analytics = [], next_id = 3, redis = (\<lambda>k. None)\<rparr>"

definition row_new :: url_row where
  "row_new = \<lparr>row_id = 3, short_code = ''0123456'', original_url = ''http://example.org'',
           created_at = 0, expires_at = None, click_count = 0, last_accessed = None,
           creator_ip = ''1.2.3.4'', is_active = True\<rparr>"

definition s_cached :: state where
  "s_cached =
     \<lparr>urls = [row1], url_analytics = [], next_id = 2,
      redis = (\<lambda>k. if k = ''short:0123456'' \<or> k = ''url:http://example.com''
                     then Some (JRow row1, Some 86400000) else None)\<rparr>"

definition s_empty :: state where
  "s_empty = \<lparr>urls = [], url_analytics = [], next_id = 1, redis = (\<lambda>k. None)\<rparr>"

definition env_off :: env where
  "env_off = env0\<lparr>CACHE_ENABLED := Some ''false''\<rparr>"

definition env1 :: env where
  "env1 = env0\<lparr>now := 1000\<rparr>"

definition s_abuse :: state where
  "s_abuse =
     \<lparr>urls = [row1], url_analytics = [], next_id = 2,
      redis = (\<lambda>k. if k = ''abuse:1.2.3.4'' then Some (JNum 51, Some 3600000) else None)\<rparr>"

definition s_blocked :: state where
  "s_blocked = snd (abuseDetection env0 ''1.2.3.4'' s_abuse)"

definition mem_hits :: "int \<Rightarrow> memstore" where
  "mem_hits n = (\<lambda>k. if k = ''1.2.3.4'' then Some (n, 900000) else None)"

definition env_off_later :: env where
  "env_off_later = env_off\<lparr>now := 61000\<rparr>"

definition env_later :: env where
  "env_later = env0\<lparr>now := 61000\<rparr>"

definition env_down :: env where
  "env_down = env0\<lparr>redis_up := False\<rparr>"

definition row_exp :: url_row where
  "row_exp = row1\<lparr>expires_at := Some 60000\<rparr>"

definition s_expiring :: state where
  "s_expiring = \<lparr>urls = [row_exp], url_analytics = [], next_id = 2, redis = (\<lambda>k. None)\<rparr>"

definition env_off_before :: env where
  "env_off_before = env_off\<lparr>now := 59999\<rparr>"

definition env_off_after :: env where
  "env_off_after = env_off\<lparr>now := 60001\<rparr>"

definition env_zero :: env where
  "env_zero = env0\<lparr>entropy := (\<lambda>i. 0)\<rparr>"

definition s_full :: state where
  "s_full = \<lparr>urls = [row_zero, row_gone], url_analytics = [], next_id = 4,
            redis = (\<lambda>k. None)\<rparr>"

text \<open>
  \<open>quiet s url t1 t2\<close>: between the times \<open>t1\<close> and \<open>t2\<close> neither the cache entry
  \<open>url:{url}\<close> nor a row of that URL expires.
\<close>

definition quiet :: "state \<Rightarrow> string \<Rightarrow> int \<Rightarrow> int \<Rightarrow> bool" where
  "quiet s url t1 t2 =
     ((case redis s (''url:'' @ url) of
         None \<Rightarrow> True
       | Some (v, None) \<Rightarrow> True
       | Some (v, Some x) \<Rightarrow> x \<le> t1 \<or> t2 < x) \<and>
      list_all (\<lambda>r. original_url r = url \<longrightarrow>
                  (case expires_at r of None \<Rightarrow> True | Some x \<Rightarrow> x \<le> t1 \<or> t2 < x))
               (urls s))"

definition s_once :: state where
  "s_once = snd (createShortUrl env0 ''1.2.3.4'' ''http://example.com'' None s_empty)"


section \<open>The code generator\<close>

lemma alphabet_length: "length alphabet = 57"
  by (simp add: alphabet_def)

lemma alphabet_distinct: "distinct alphabet"
  by (simp add: alphabet_def)

lemma nanoid_length: "length (nanoid len rnd k) = len"
  by (simp add: nanoid_def)

lemma nanoid_alphabet: "set (nanoid len rnd k) \<subseteq> set alphabet"
  by (auto simp: nanoid_def alphabet_length)

lemma generate_from_cases:
  "(\<exists>j<n. generate_from n rnd k db = nanoid 7 rnd (k + 7 * j) \<and>
           rows_with_code (nanoid 7 rnd (k + 7 * j)) db = [] \<and>
           (\<forall>i<j. rows_with_code (nanoid 7 rnd (k + 7 * i)) db \<noteq> [])) \<or>
   ((\<forall>i<n. rows_with_code (nanoid 7 rnd (k + 7 * i)) db \<noteq> []) \<and>
    generate_from n rnd k db = nanoid 10 rnd (k + 7 * n))"
proof (induction n arbitrary: k)
  case 0
  show ?case by simp
next
  case (Suc n)
  show ?case
  proof (cases "rows_with_code (nanoid 7 rnd k) db = []")
    case True
    then have "generate_from (Suc n) rnd k db = nanoid 7 rnd (k + 7 * 0) \<and>
           rows_with_code (nanoid 7 rnd (k + 7 * 0)) db = [] \<and>
           (\<forall>i<(0::nat). rows_with_code (nanoid 7 rnd (k + 7 * i)) db \<noteq> [])"
      by simp
    then show ?thesis by blast
  next
    case False
    then have step: "generate_from (Suc n) rnd k db = generate_from n rnd (k + 7) db"
      by simp
    have shift: "\<And>i. k + 7 + 7 * i = k + 7 * Suc i" by simp
    from Suc.IH [of "k + 7"] show ?thesis
    proof
      assume "\<exists>j<n. generate_from n rnd (k + 7) db = nanoid 7 rnd (k + 7 + 7 * j) \<and>
           rows_with_code (nanoid 7 rnd (k + 7 + 7 * j)) db = [] \<and>
           (\<forall>i<j. rows_with_code (nanoid 7 rnd (k + 7 + 7 * i)) db \<noteq> [])"
      then obtain j where j: "j < n"
        "generate_from n rnd (k + 7) db = nanoid 7 rnd (k + 7 * Suc j)"
        "rows_with_code (nanoid 7 rnd (k + 7 * Suc j)) db = []"
        "\<forall>i<j. rows_with_code (nanoid 7 rnd (k + 7 * Suc i)) db \<noteq> []"
        unfolding shift by blast
      have "\<forall>i<Suc j. rows_with_code (nanoid 7 rnd (k + 7 * i)) db \<noteq> []"
      proof (intro allI impI)
        fix i assume "i < Suc j"
        then show "rows_with_code (nanoid 7 rnd (k + 7 * i)) db \<noteq> []"
          using False j(4) by (cases i) auto
      qed
      with j step have "Suc j < Suc n \<and> generate_from (Suc n) rnd k db = nanoid 7 rnd (k + 7 * Suc j) \<and>
           rows_with_code (nanoid 7 rnd (k + 7 * Suc j)) db = [] \<and>
           (\<forall>i<Suc j. rows_with_code (nanoid 7 rnd (k + 7 * i)) db \<noteq> [])"
        by simp
      then show ?thesis by blast
    next
      assume a: "(\<forall>i<n. rows_with_code (nanoid 7 rnd (k + 7 + 7 * i)) db \<noteq> []) \<and>
        generate_from n rnd (k + 7) db = nanoid 10 rnd (k + 7 + 7 * n)"
      have "\<forall>i<Suc n. rows_with_code (nanoid 7 rnd (k + 7 * i)) db \<noteq> []"
      proof (intro allI impI)
        fix i assume "i < Suc n"
        then show "rows_with_code (nanoid 7 rnd (k + 7 * i)) db \<noteq> []"
          using False a unfolding shift by (cases i) auto
      qed
      moreover have "generate_from (Suc n) rnd k db = nanoid 10 rnd (k + 7 * Suc n)"
        using a step unfolding shift by simp
      ultimately show ?thesis by blast
    qed
  qed
qed

lemma generate_from_active_blind:
  "generate_from n rnd k (map (\<lambda>r. r\<lparr>is_active := f r\<rparr>) db) = generate_from n rnd k db"
proof -
  have rows: "\<And>c. (rows_with_code c (map (\<lambda>r. r\<lparr>is_active := f r\<rparr>) db) = []) = (rows_with_code c db = [])"
    by (simp add: rows_with_code_def filter_empty_conv)
  show ?thesis
    by (induction n arbitrary: k) (simp_all add: rows Let_def)
qed


lemma create_Inr:
  assumes "create e url ip x s = (Inr row, s')"
  shows "rows_with_code (short_code row) (urls s) = []"
    and "urls s' = urls s @ [row]"
    and "redis s' = redis s"
    and "original_url row = url"
    and "is_active row"
    and "created_at row = now e"
    and "expires_at row =
           (case x of None \<Rightarrow> None | Some n \<Rightarrow> if n \<noteq> 0 then Some (now e + n * 1000) else None)"
    and "short_code row = generateUniqueShortCode 5 (entropy e) (urls s)"
proof -
  let ?c = "generateUniqueShortCode 5 (entropy e) (urls s)"
  let ?x = "case x of None \<Rightarrow> None | Some n \<Rightarrow> if n \<noteq> 0 then Some (now e + n * 1000) else None"
  let ?row = "\<lparr>row_id = next_id s, short_code = ?c, original_url = url,
                 created_at = now e, expires_at = ?x, click_count = 0,
                 last_accessed = None, creator_ip = ip, is_active = True\<rparr>"
  have eq: "create e url ip x s =
      (if (case ?x of None \<Rightarrow> False | Some v \<Rightarrow> \<not> valid_date v)
         then (Inl InvalidTimestamp, s)
         else if rows_with_code ?c (urls s) \<noteq> []
         then (Inl UniqueViolation, s\<lparr>next_id := next_id s + 1\<rparr>)
         else (Inr ?row, s\<lparr>urls := urls s @ [?row], next_id := next_id s + 1\<rparr>))"
    by (simp add: create_def Let_def)
  have a: "\<not> (case ?x of None \<Rightarrow> False | Some v \<Rightarrow> \<not> valid_date v)"
  proof
    assume "case ?x of None \<Rightarrow> False | Some v \<Rightarrow> \<not> valid_date v"
    with eq have "create e url ip x s = (Inl InvalidTimestamp, s)" by simp
    with assms show False by simp
  qed
  have b: "rows_with_code ?c (urls s) = []"
  proof (rule ccontr)
    assume "rows_with_code ?c (urls s) \<noteq> []"
    with eq a have "create e url ip x s = (Inl UniqueViolation, s\<lparr>next_id := next_id s + 1\<rparr>)"
      by simp
    with assms show False by simp
  qed
  from eq a b have full: "create e url ip x s =
      (Inr ?row, s\<lparr>urls := urls s @ [?row], next_id := next_id s + 1\<rparr>)"
    by simp
  have f1: "fst (create e url ip x s) = Inr row" and f2: "snd (create e url ip x s) = s'"
    using assms by simp_all
  have g1: "fst (create e url ip x s) = Inr ?row"
    and g2: "snd (create e url ip x s) = s\<lparr>urls := urls s @ [?row], next_id := next_id s + 1\<rparr>"
    unfolding full by simp_all
  from f1 have "Inr row = fst (create e url ip x s)" by (rule sym)
  also note g1
  finally have r: "row = ?row" by simp
  from f2 have "s' = snd (create e url ip x s)" by (rule sym)
  also note g2
  finally have s': "s' = s\<lparr>urls := urls s @ [?row], next_id := next_id s + 1\<rparr>" .
  show "rows_with_code (short_code row) (urls s) = []" using b r by simp
  show "urls s' = urls s @ [row]" using r s' by simp
  show "redis s' = redis s" using s' by simp
  show "original_url row = url" using r by simp
  show "is_active row" using r by simp
  show "created_at row = now e" using r by simp
  show "expires_at row = ?x" using r by simp
  show "short_code row = ?c" using r by simp
qed

text \<open>
  Claim C5. \<open>generateUniqueShortCode maxAttempts\<close> draws at most \<open>maxAttempts\<close>
  candidates of 7 symbols of the alphabet of 57 symbols, looks each up in the store and
  returns the first one that no row has; when every attempt collides it returns one
  candidate of 10 symbols that it does not look up. So a result has 7 or 10 symbols, all
  of the alphabet, and a result returned by an attempt is the code of no row. The code
  of a row that \<open>create\<close> inserts comes from the default of 5 attempts.
\<close>

theorem generateUniqueShortCode_result:
  "length alphabet = 57 \<and> distinct alphabet \<and>
   (length (generateUniqueShortCode maxAttempts rnd db) = 7 \<or>
    length (generateUniqueShortCode maxAttempts rnd db) = 10) \<and>
   set (generateUniqueShortCode maxAttempts rnd db) \<subseteq> set alphabet \<and>
   ((\<exists>j<maxAttempts.
        generateUniqueShortCode maxAttempts rnd db = nanoid 7 rnd (7 * j) \<and>
        rows_with_code (nanoid 7 rnd (7 * j)) db = [] \<and>
        (\<forall>i<j. rows_with_code (nanoid 7 rnd (7 * i)) db \<noteq> [])) \<or>
    ((\<forall>i<maxAttempts. rows_with_code (nanoid 7 rnd (7 * i)) db \<noteq> []) \<and>
     generateUniqueShortCode maxAttempts rnd db = nanoid 10 rnd (7 * maxAttempts))) \<and>
   (\<forall>row s'. create e url ip x s = (Inr row, s') \<longrightarrow>
      short_code row = generateUniqueShortCode 5 (entropy e) (urls s))"
proof -
  let ?c = "generateUniqueShortCode maxAttempts rnd db"
  have dflt: "\<forall>row s'. create e url ip x s = (Inr row, s') \<longrightarrow>
      short_code row = generateUniqueShortCode 5 (entropy e) (urls s)"
    using create_Inr(8) by blast
  have cases: "(\<exists>j<maxAttempts.
        ?c = nanoid 7 rnd (7 * j) \<and>
        rows_with_code (nanoid 7 rnd (7 * j)) db = [] \<and>
        (\<forall>i<j. rows_with_code (nanoid 7 rnd (7 * i)) db \<noteq> [])) \<or>
    ((\<forall>i<maxAttempts. rows_with_code (nanoid 7 rnd (7 * i)) db \<noteq> []) \<and>
     ?c = nanoid 10 rnd (7 * maxAttempts))"
    using generate_from_cases [of maxAttempts rnd 0 db]
    by (simp add: generateUniqueShortCode_def)
  then have len: "length ?c = 7 \<or> length ?c = 10"
    by (auto simp: nanoid_length)
  from cases have sub: "set ?c \<subseteq> set alphabet"
    using nanoid_alphabet by metis
  from cases len sub alphabet_length alphabet_distinct dflt show ?thesis by blast
qed

theorem generateUniqueShortCode_result_witness:
  "generateUniqueShortCode 5 (\<lambda>i. i) [row1] = ''789ABCD'' \<and>
   set (generateUniqueShortCode 5 (\<lambda>i. i) [row1]) \<subseteq> set alphabet \<and>
   rows_with_code (nanoid 7 (\<lambda>i. i) 0) [row1] \<noteq> [] \<and>
   rows_with_code ''789ABCD'' [row1] = [] \<and>
   fst (create env0 ''http://example.org'' ''1.2.3.4'' None s_gone) = Inr row_new \<and>
   short_code row_new = generateUniqueShortCode 5 (entropy env0) (urls s_gone)"
proof -
  have ev: "generateUniqueShortCode 5 (\<lambda>i. i) [row1] = ''789ABCD''"
    "rows_with_code (nanoid 7 (\<lambda>i. i) 0) [row1] \<noteq> []"
    "rows_with_code ''789ABCD'' [row1] = []"
    by code_simp+
  have c: "fst (create env0 ''http://example.org'' ''1.2.3.4'' None s_gone) = Inr row_new"
    by code_simp
  then have c': "create env0 ''http://example.org'' ''1.2.3.4'' None s_gone =
      (Inr row_new, snd (create env0 ''http://example.org'' ''1.2.3.4'' None s_gone))"
    by (simp add: prod_eq_iff)
  note inst = generateUniqueShortCode_result
    [where maxAttempts = 5 and rnd = "\<lambda>i. i" and db = "[row1]" and e = env0
       and url = "''http://example.org''" and ip = "''1.2.3.4''" and x = None and s = s_gone]
  from inst have "set (generateUniqueShortCode 5 (\<lambda>i. i) [row1]) \<subseteq> set alphabet"
    by blast
  moreover from inst c'
  have "short_code row_new = generateUniqueShortCode 5 (entropy env0) (urls s_gone)"
    by blast
  ultimately show ?thesis using ev c by blast
qed

lemma rows_with_code_mem: "r \<in> set db \<Longrightarrow> rows_with_code (short_code r) db \<noteq> []"
  by (auto simp: rows_with_code_def filter_empty_conv)

text \<open>
  Claim C9. The uniqueness check of the generator is global: its result does not depend
  on the \<open>is_active\<close> flags of the rows, and it returns the code of a soft-deleted row
  only when no attempt is left, that is when every attempt collided and the code is the
  unchecked candidate of 10 symbols. Such a code is not reused either: the unique
  constraint on \<open>short_code\<close> lets \<open>create\<close> insert only a code that no row has.
\<close>

theorem uniqueness_check_ignores_is_active:
  "generateUniqueShortCode maxAttempts rnd (map (\<lambda>r. r\<lparr>is_active := f r\<rparr>) db) =
     generateUniqueShortCode maxAttempts rnd db \<and>
   (\<forall>r \<in> set db. \<not> is_active r \<longrightarrow> generateUniqueShortCode maxAttempts rnd db = short_code r \<longrightarrow>
      (\<forall>i<maxAttempts. rows_with_code (nanoid 7 rnd (7 * i)) db \<noteq> []) \<and>
      short_code r = nanoid 10 rnd (7 * maxAttempts)) \<and>
   (\<forall>row s'. create e url ip x s = (Inr row, s') \<longrightarrow>
      rows_with_code (short_code row) (urls s) = [])"
proof -
  have blind: "generateUniqueShortCode maxAttempts rnd (map (\<lambda>r. r\<lparr>is_active := f r\<rparr>) db) =
     generateUniqueShortCode maxAttempts rnd db"
    by (simp add: generateUniqueShortCode_def generate_from_active_blind)
  have taken: "(\<forall>i<maxAttempts. rows_with_code (nanoid 7 rnd (7 * i)) db \<noteq> []) \<and>
      short_code r = nanoid 10 rnd (7 * maxAttempts)"
    if r: "r \<in> set db" and eq: "generateUniqueShortCode maxAttempts rnd db = short_code r" for r
  proof -
    have "rows_with_code (generateUniqueShortCode maxAttempts rnd db) db \<noteq> []"
      using rows_with_code_mem [OF r] eq by simp
    with generate_from_cases [of maxAttempts rnd 0 db]
    have "(\<forall>i<maxAttempts. rows_with_code (nanoid 7 rnd (7 * i)) db \<noteq> []) \<and>
       generateUniqueShortCode maxAttempts rnd db = nanoid 10 rnd (7 * maxAttempts)"
      by (auto simp: generateUniqueShortCode_def)
    with eq show ?thesis by simp
  qed
  have unique: "\<forall>row s'. create e url ip x s = (Inr row, s') \<longrightarrow>
      rows_with_code (short_code row) (urls s) = []"
    using create_Inr(1) by blast
  from blind taken unique show ?thesis by blast
qed

theorem uniqueness_check_ignores_is_active_witness:
  "row_gone \<in> set [row_zero, row_gone] \<and> \<not> is_active row_gone \<and>
   generateUniqueShortCode 5 (\<lambda>i. 0) [row_zero, row_gone] = short_code row_gone \<and>
   short_code row_gone = nanoid 10 (\<lambda>i. 0) (7 * 5) \<and>
   generateUniqueShortCode 5 (\<lambda>i. i) [row_zero, row_gone] = ''0123456'' \<and>
   fst (create env0 ''http://example.org'' ''1.2.3.4'' None s_gone) = Inr row_new \<and>
   rows_with_code (short_code row_new) (urls s_gone) = []"
proof -
  have h: "row_gone \<in> set [row_zero, row_gone]" "\<not> is_active row_gone"
    by (simp_all add: row_gone_def)
  have g: "generateUniqueShortCode 5 (\<lambda>i. 0) [row_zero, row_gone] = short_code row_gone"
    by code_simp
  have g': "generateUniqueShortCode 5 (\<lambda>i. i) [row_zero, row_gone] = ''0123456''"
    by code_simp
  have c: "fst (create env0 ''http://example.org'' ''1.2.3.4'' None s_gone) = Inr row_new"
    by code_simp
  then have c': "create env0 ''http://example.org'' ''1.2.3.4'' None s_gone =
      (Inr row_new, snd (create env0 ''http://example.org'' ''1.2.3.4'' None s_gone))"
    by (simp add: prod_eq_iff)
  note inst = uniqueness_check_ignores_is_active
    [where maxAttempts = 5 and rnd = "\<lambda>i. 0" and f = "\<lambda>r. True" and db = "[row_zero, row_gone]"
       and e = env0 and url = "''http://example.org''" and ip = "''1.2.3.4''" and x = None
       and s = s_gone]
  from inst h g have "short_code row_gone = nanoid 10 (\<lambda>i. 0) (7 * 5)"
    by blast
  moreover from inst c' have "rows_with_code (short_code row_new) (urls s_gone) = []"
    by blast
  ultimately show ?thesis using h g g' c by blast
qed

section \<open>Deleting and resolving\<close>

lemma deleted_row_origin:
  assumes "r \<in> set (map (\<lambda>r. if short_code r = c then r\<lparr>is_active := False\<rparr> else r) db)"
  shows "\<exists>x \<in> set db. r = (if short_code x = c then x\<lparr>is_active := False\<rparr> else x)"
  using assms by (auto simp: image_iff)

lemma deleted_rows_inactive:
  assumes "r \<in> set (map (\<lambda>r. if short_code r = c then r\<lparr>is_active := False\<rparr> else r) db)"
    and "short_code r = c"
  shows "\<not> is_active r"
proof -
  from deleted_row_origin [OF assms(1)] obtain x where x: "x \<in> set db"
      "r = (if short_code x = c then x\<lparr>is_active := False\<rparr> else x)"
    by blast
  have "short_code x = c"
    using assms(2) x(2) by (cases "short_code x = c") simp_all
  with x show ?thesis by simp
qed

lemma deleted_rows_url:
  assumes "r \<in> set (map (\<lambda>r. if short_code r = c then r\<lparr>is_active := False\<rparr> else r) db)"
  shows "original_url r \<in> original_url ` set db"
proof -
  from deleted_row_origin [OF assms(1)] obtain x where x: "x \<in> set db"
      "r = (if short_code x = c then x\<lparr>is_active := False\<rparr> else x)"
    by blast
  have "original_url r = original_url x"
    using x(2) by (cases "short_code x = c") simp_all
  with x(1) show ?thesis by simp
qed

lemma delete_hit:
  assumes "r \<in> set (urls s)" "short_code r = c"
  shows "\<exists>r'. fst (delete c s) = Some r' \<and> short_code r' = c \<and> \<not> is_active r' \<and>
              original_url r' \<in> original_url ` set (urls s)"
proof -
  let ?db = "map (\<lambda>r. if short_code r = c then r\<lparr>is_active := False\<rparr> else r) (urls s)"
  have "r\<lparr>is_active := False\<rparr> \<in> set (rows_with_code c ?db)"
    using assms by (force simp: rows_with_code_def)
  then obtain r' rs where rs: "rows_with_code c ?db = r' # rs"
    by (cases "rows_with_code c ?db") auto
  then have "r' \<in> set (rows_with_code c ?db)" by simp
  then have c: "short_code r' = c" and m: "r' \<in> set ?db"
    unfolding rows_with_code_def set_filter by blast+
  have "short_code r' = c \<and> \<not> is_active r' \<and>
      original_url r' \<in> original_url ` set (urls s)"
    using c deleted_rows_inactive [OF m c] deleted_rows_url [OF m] by blast
  with rs show ?thesis
    by (simp add: delete_def first_row_def Let_def)
qed

lemma delete_urls:
  "urls (snd (delete c s)) = map (\<lambda>r. if short_code r = c then r\<lparr>is_active := False\<rparr> else r) (urls s)"
  by (simp add: delete_def Let_def)

lemma deleteShortUrl_eq:
  "deleteShortUrl e c s =
     (case fst (delete c s) of
        None \<Rightarrow> (NotFound404, snd (delete c s))
      | Some url \<Rightarrow>
          (Deleted200,
           cache_del e (''url:'' @ original_url url)
             (cache_del e (''short:'' @ c) (snd (delete c s)))))"
  by (simp add: deleteShortUrl_def case_prod_beta)

lemma cache_del_urls: "urls (cache_del e k s) = urls s"
  by (simp add: cache_del_def)

lemma deleteShortUrl_urls:
  "urls (snd (deleteShortUrl e c s)) =
     map (\<lambda>r. if short_code r = c then r\<lparr>is_active := False\<rparr> else r) (urls s)"
  by (simp add: deleteShortUrl_eq delete_urls cache_del_urls split: option.splits)

text \<open>
  Claim C10. Deleting a code whose row is already soft-deleted still returns the row and
  answers success, not 404: the \<open>UPDATE\<close> has no condition on \<open>is_active\<close>, so a
  repeated delete answers as the first one did.
\<close>

theorem delete_of_deleted_succeeds:
  assumes "r \<in> set (urls s)" and "short_code r = c" and "\<not> is_active r"
  shows "(\<exists>r'. fst (delete c s) = Some r' \<and> short_code r' = c \<and> \<not> is_active r') \<and>
         fst (deleteShortUrl e c s) = Deleted200 \<and>
         fst (deleteShortUrl e' c (snd (deleteShortUrl e c s))) = Deleted200"
proof -
  obtain r' where r': "fst (delete c s) = Some r'" "short_code r' = c" "\<not> is_active r'"
    using delete_hit [OF assms(1,2)] by blast
  have first: "fst (deleteShortUrl e c s) = Deleted200"
    using r' by (simp add: deleteShortUrl_eq)
  have "r\<lparr>is_active := False\<rparr> \<in> set (urls (snd (deleteShortUrl e c s)))"
    unfolding deleteShortUrl_urls using assms by force
  moreover have "short_code (r\<lparr>is_active := False\<rparr>) = c" using assms by simp
  ultimately obtain r2 where "fst (delete c (snd (deleteShortUrl e c s))) = Some r2"
    using delete_hit by blast
  then have second: "fst (deleteShortUrl e' c (snd (deleteShortUrl e c s))) = Deleted200"
    by (simp add: deleteShortUrl_eq)
  show ?thesis using r' first second by blast
qed


theorem delete_of_deleted_succeeds_witness:
  "row_gone \<in> set (urls s_gone) \<and> \<not> is_active row_gone \<and>
   fst (delete ''0000000000'' s_gone) = Some row_gone \<and>
   fst (deleteShortUrl env0 ''0000000000'' s_gone) = Deleted200 \<and>
   fst (deleteShortUrl env0 ''0000000000'' (snd (deleteShortUrl env0 ''0000000000'' s_gone))) =
     Deleted200"
proof -
  have h: "row_gone \<in> set (urls s_gone)" "short_code row_gone = ''0000000000''"
    "\<not> is_active row_gone"
    by (simp_all add: s_gone_def row_gone_def)
  have d: "fst (delete ''0000000000'' s_gone) = Some row_gone"
    by code_simp
  from delete_of_deleted_succeeds [OF h, of env0 env0] d h show ?thesis by simp
qed

lemma findByShortCode_inactive:
  assumes "\<forall>r \<in> set (urls s). short_code r = c \<longrightarrow> \<not> is_active r"
  shows "findByShortCode e c s = None"
proof -
  have "filter (\<lambda>r. short_code r = c \<and> visible e r) (urls s) = []"
    using assms by (auto simp: filter_empty_conv visible_def)
  then show ?thesis by (simp add: findByShortCode_def first_row_def)
qed

lemma cache_get_after_del:
  "redis_up e \<Longrightarrow> cache_get e' k (cache_del e k' (cache_del e k s)) = None"
  by (simp add: cache_get_def cache_del_def live_def)

text \<open>
  Claim C6, as the code has it. After a delete that answered success, every row of the
  code is inactive in the store, and a resolve of the code answers 404 whenever
  \<open>short:{shortCode}\<close> is not served from the cache. When the Redis commands of the delete
  succeed (\<open>redis_up e\<close>), both keys \<open>short:{shortCode}\<close> and \<open>url:{originalUrl}\<close> are
  gone from Redis, whether or not caching is enabled, and every later resolve answers 404,
  also when the row was in the cache just before. The requests that follow may come at
  any time and in any environment.
\<close>

theorem resolve_after_delete_not_found:
  assumes ok: "fst (deleteShortUrl e c s) = Deleted200"
  shows "(\<forall>r \<in> set (urls (snd (deleteShortUrl e c s))). short_code r = c \<longrightarrow> \<not> is_active r) \<and>
         (\<not> truthy (cache_get e' (''short:'' @ c) (snd (deleteShortUrl e c s))) \<longrightarrow>
            fst (redirectToOriginal e' ip c ua rf (snd (deleteShortUrl e c s))) = NotFound404) \<and>
         (redis_up e \<longrightarrow>
            fst (redirectToOriginal e' ip c ua rf (snd (deleteShortUrl e c s))) = NotFound404 \<and>
            (\<exists>r. fst (delete c s) = Some r \<and>
                 redis (snd (deleteShortUrl e c s)) (''short:'' @ c) = None \<and>
                 redis (snd (deleteShortUrl e c s)) (''url:'' @ original_url r) = None))"
proof -
  let ?s' = "snd (deleteShortUrl e c s)"
  from ok obtain r where r: "fst (delete c s) = Some r"
    by (auto simp: deleteShortUrl_eq split: option.splits)
  have s': "?s' = cache_del e (''url:'' @ original_url r) (cache_del e (''short:'' @ c) (snd (delete c s)))"
    using r by (simp add: deleteShortUrl_eq)
  have inactive: "\<forall>r \<in> set (urls ?s'). short_code r = c \<longrightarrow> \<not> is_active r"
    using deleted_rows_inactive [of _ c "urls s"] unfolding deleteShortUrl_urls by blast
  have nf: "fst (redirectToOriginal e' ip c ua rf ?s') = NotFound404"
    if "\<not> truthy (cache_get e' (''short:'' @ c) ?s')"
    using that findByShortCode_inactive [OF inactive, of e']
    by (simp add: redirectToOriginal_def)
  have gone: "fst (redirectToOriginal e' ip c ua rf ?s') = NotFound404 \<and>
      (\<exists>r. fst (delete c s) = Some r \<and> redis ?s' (''short:'' @ c) = None \<and>
           redis ?s' (''url:'' @ original_url r) = None)"
    if up: "redis_up e"
  proof -
    have miss: "cache_get e' (''short:'' @ c) ?s' = None"
      unfolding s' using up by (simp add: cache_get_def cache_del_def live_def)
    have keys: "redis ?s' (''short:'' @ c) = None" "redis ?s' (''url:'' @ original_url r) = None"
      unfolding s' using up by (simp_all add: cache_del_def)
    from miss have "fst (redirectToOriginal e' ip c ua rf ?s') = NotFound404"
      using nf by simp
    with r keys show ?thesis by blast
  qed
  from inactive nf gone show ?thesis by blast
qed

theorem resolve_after_delete_not_found_witness:
  "redis_up env0 \<and>
   cache_get env0 ''short:0123456'' s_cached = Some (JRow row1) \<and>
   fst (redirectToOriginal env0 ''5.6.7.8'' ''0123456'' None None s_cached) =
     Redirect301 (Some ''http://example.com'') \<and>
   fst (deleteShortUrl env0 ''0123456'' s_cached) = Deleted200 \<and>
   fst (redirectToOriginal env0 ''5.6.7.8'' ''0123456'' None None
          (snd (deleteShortUrl env0 ''0123456'' s_cached))) = NotFound404 \<and>
   fst (deleteShortUrl env_down ''0123456'' s_cached) = Deleted200 \<and>
   \<not> truthy (cache_get env_off ''short:0123456''
               (snd (deleteShortUrl env_down ''0123456'' s_cached))) \<and>
   fst (redirectToOriginal env_off ''5.6.7.8'' ''0123456'' None None
          (snd (deleteShortUrl env_down ''0123456'' s_cached))) = NotFound404"
proof -
  have up: "redis_up env0"
    by (simp add: env0_def)
  have before: "cache_get env0 ''short:0123456'' s_cached = Some (JRow row1)"
    "fst (redirectToOriginal env0 ''5.6.7.8'' ''0123456'' None None s_cached) =
       Redirect301 (Some ''http://example.com'')"
    by code_simp+
  have ok: "fst (deleteShortUrl env0 ''0123456'' s_cached) = Deleted200"
    by code_simp
  have ok2: "fst (deleteShortUrl env_down ''0123456'' s_cached) = Deleted200"
    by code_simp
  have off: "\<not> truthy (cache_get env_off (''short:'' @ ''0123456'')
               (snd (deleteShortUrl env_down ''0123456'' s_cached)))"
    by (simp add: cache_get_def cache_disabled_def env_off_def)
  from resolve_after_delete_not_found [OF ok, of env0 "''5.6.7.8''" None None] up
  have a: "fst (redirectToOriginal env0 ''5.6.7.8'' ''0123456'' None None
          (snd (deleteShortUrl env0 ''0123456'' s_cached))) = NotFound404"
    by blast
  from resolve_after_delete_not_found [OF ok2, of env_off "''5.6.7.8''" None None] off
  have b: "fst (redirectToOriginal env_off ''5.6.7.8'' ''0123456'' None None
          (snd (deleteShortUrl env_down ''0123456'' s_cached))) = NotFound404"
    by blast
  from up before ok a ok2 off b show ?thesis by simp
qed

text \<open>
  The claim says that a resolve after every successful delete answers 404. With the row
  in the cache and the Redis commands of the delete failing, the delete still answers
  success, the entry stays, and a resolve served with Redis back redirects.
\<close>

theorem stale_entry_after_failed_cache_delete:
  "cache_get env0 ''short:0123456'' s_cached = Some (JRow row1) \<and>
   fst (deleteShortUrl env_down ''0123456'' s_cached) = Deleted200 \<and>
   fst (redirectToOriginal env0 ''5.6.7.8'' ''0123456'' None None
          (snd (deleteShortUrl env_down ''0123456'' s_cached))) =
     Redirect301 (Some ''http://example.com'')"
  by code_simp

section \<open>Suspicious URLs\<close>

lemma cache_increment_urls: "urls (snd (cache_increment e k ttl s)) = urls s"
  by (simp add: cache_increment_def split: option.splits prod.splits jsval.splits)

lemma cache_increment_other:
  "k' \<noteq> k \<Longrightarrow> redis (snd (cache_increment e k ttl s)) k' = redis s k'"
  by (simp add: cache_increment_def split: option.splits prod.splits jsval.splits)

text \<open>
  Claim C1, as the code has it. \<open>trackSuspiciousUrl\<close> increments \<open>abuse:{ip}\<close> exactly
  when the submitted URL matches a pattern, and it returns that match; \<open>createShortUrl\<close>
  answers a matching request at once with 400 (\<open>URL rejected due to security concerns\<close>):
  nothing is looked up or created, and only the key \<open>abuse:{ip}\<close> of Redis may change.
\<close>

theorem suspicious_url_counted_and_rejected:
  "trackSuspiciousUrl e ip url s =
     (isSuspicious url,
      if isSuspicious url then snd (cache_increment e (''abuse:'' @ ip) 3600 s) else s) \<and>
   (isSuspicious url \<longrightarrow>
      createShortUrl e ip url expiresIn s =
        (Rejected400, snd (cache_increment e (''abuse:'' @ ip) 3600 s)) \<and>
      urls (snd (createShortUrl e ip url expiresIn s)) = urls s \<and>
      (\<forall>k. k \<noteq> ''abuse:'' @ ip \<longrightarrow>
           redis (snd (createShortUrl e ip url expiresIn s)) k = redis s k))"
proof -
  have t: "trackSuspiciousUrl e ip url s =
     (isSuspicious url,
      if isSuspicious url then snd (cache_increment e (''abuse:'' @ ip) 3600 s) else s)"
    by (simp add: trackSuspiciousUrl_def)
  have "createShortUrl e ip url expiresIn s =
        (Rejected400, snd (cache_increment e (''abuse:'' @ ip) 3600 s))"
    if "isSuspicious url"
    using that by (simp add: createShortUrl_def t)
  then show ?thesis
    using t cache_increment_urls cache_increment_other by simp
qed

theorem suspicious_url_counted_and_rejected_witness:
  "isSuspicious ''http://bit.ly/a'' \<and>
   createShortUrl env0 ''1.2.3.4'' ''http://bit.ly/a'' None s_empty =
     (Rejected400, snd (cache_increment env0 ''abuse:1.2.3.4'' 3600 s_empty)) \<and>
   redis (snd (cache_increment env0 ''abuse:1.2.3.4'' 3600 s_empty)) ''abuse:1.2.3.4'' =
     Some (JNum 1, Some 3600000) \<and>
   urls (snd (createShortUrl env0 ''1.2.3.4'' ''http://bit.ly/a'' None s_empty)) = []"
proof -
  have h: "isSuspicious ''http://bit.ly/a''"
    by code_simp
  have c: "redis (snd (cache_increment env0 ''abuse:1.2.3.4'' 3600 s_empty)) ''abuse:1.2.3.4'' =
     Some (JNum 1, Some 3600000)"
    by code_simp
  have u: "urls s_empty = []"
    by (simp add: s_empty_def)
  from suspicious_url_counted_and_rejected [of env0 "''1.2.3.4''" "''http://bit.ly/a''" s_empty None] h
  have r: "createShortUrl env0 ''1.2.3.4'' ''http://bit.ly/a'' None s_empty =
     (Rejected400, snd (cache_increment env0 ''abuse:1.2.3.4'' 3600 s_empty))"
    by simp
  then have "urls (snd (createShortUrl env0 ''1.2.3.4'' ''http://bit.ly/a'' None s_empty)) = []"
    using u by (simp add: cache_increment_urls)
  with h c r show ?thesis by simp
qed

text \<open>
  The claim says that a matching request is not rejected and goes on. A request for
  \<open>http://bit.ly/a\<close>, which the validator accepts, is answered 400 and creates no row.
\<close>

theorem suspicious_url_rejected_at_once:
  "isSuspicious ''http://bit.ly/a'' \<and>
   validateUrlCreation env0 ''http://bit.ly/a'' None \<and>
   fst (app env0 (PostShorten ''1.2.3.4'' ''http://bit.ly/a'' None) (\<lambda>k. None, s_empty)) =
     Rejected400 \<and>
   urls (snd (snd (app env0 (PostShorten ''1.2.3.4'' ''http://bit.ly/a'' None)
                     (\<lambda>k. None, s_empty)))) = []"
  by code_simp

section \<open>The cache helpers with caching disabled\<close>

text \<open>
  Claim C8, as the code has it. With caching disabled \<open>cache.get\<close> is a miss and
  \<open>cache.set\<close> does nothing; \<open>cache.del\<close> and \<open>cache.increment\<close> do not read
  \<open>CACHE_ENABLED\<close> and act as they do with caching enabled.
\<close>

theorem disabled_cache_get_set_only:
  assumes "cache_disabled e"
  shows "cache_get e k s = None \<and> cache_set e k v ttl s = s \<and>
         cache_del e k s = cache_del (e\<lparr>CACHE_ENABLED := Some ''true''\<rparr>) k s \<and>
         cache_increment e k ttl s =
           cache_increment (e\<lparr>CACHE_ENABLED := Some ''true''\<rparr>) k ttl s"
proof -
  have "cache_increment (e\<lparr>CACHE_ENABLED := Some ''true''\<rparr>) k ttl s = cache_increment e k ttl s"
    by (simp add: cache_increment_def split: option.splits prod.splits jsval.splits)
  then show ?thesis
    using assms by (simp add: cache_get_def cache_set_def cache_del_def)
qed

theorem disabled_cache_get_set_only_witness:
  "cache_disabled env_off \<and>
   cache_get env_off ''short:0123456'' s_cached = None \<and>
   cache_set env_off ''short:0123456'' (JNum 7) 60 s_cached = s_cached \<and>
   cache_del env_off ''short:0123456'' s_cached =
     cache_del (env_off\<lparr>CACHE_ENABLED := Some ''true''\<rparr>) ''short:0123456'' s_cached"
proof -
  have h: "cache_disabled env_off"
    by (simp add: env_off_def env0_def cache_disabled_def)
  from disabled_cache_get_set_only [OF h] h show ?thesis by blast
qed

text \<open>
  The claim says that every operation leaves Redis unchanged when caching is disabled.
  With \<open>CACHE_ENABLED=false\<close>, \<open>cache.del\<close> removes a key that was there and
  \<open>cache.increment\<close> creates a counter and returns 1, not 0.
\<close>

theorem disabled_cache_del_increment_act:
  "cache_disabled env_off \<and>
   redis s_cached ''short:0123456'' = Some (JRow row1, Some 86400000) \<and>
   redis (cache_del env_off ''short:0123456'' s_cached) ''short:0123456'' = None \<and>
   redis s_cached ''abuse:1.2.3.4'' = None \<and>
   fst (cache_increment env_off ''abuse:1.2.3.4'' 3600 s_cached) = 1 \<and>
   redis (snd (cache_increment env_off ''abuse:1.2.3.4'' 3600 s_cached)) ''abuse:1.2.3.4'' =
     Some (JNum 1, Some 3600000)"
  by code_simp

section \<open>Blocking an address\<close>

lemma cache_set_urls: "urls (cache_set e k v ttl s) = urls s"
  by (simp add: cache_set_def)

lemma createUrlLimiter_answers:
  "fst (createUrlLimiter e ip m) = None \<or> fst (createUrlLimiter e ip m) = Some TooManyUrls429"
  by (simp add: createUrlLimiter_def over_limit_def case_prod_beta)

lemma abuseDetection_blocked:
  assumes "cache_get e (''blocked:'' @ ip) s = Some (JBlock t)"
  shows "abuseDetection e ip s = (Some (StillBlocked429 (Some t)), s)"
  using assms by (simp add: abuseDetection_def)

lemma post_shorten_blocked:
  assumes "cache_get e (''blocked:'' @ ip) s = Some (JBlock t)"
  shows "fst (post_shorten e ip url x (m, s)) =
           (if fst (createUrlLimiter e ip m) = None then StillBlocked429 (Some t)
            else TooManyUrls429) \<and>
         snd (snd (post_shorten e ip url x (m, s))) = s"
proof (cases "fst (createUrlLimiter e ip m)")
  case None
  then obtain m1 where "createUrlLimiter e ip m = (None, m1)"
    by (cases "createUrlLimiter e ip m") simp
  then show ?thesis
    using None abuseDetection_blocked [OF assms] by (simp add: post_shorten_def)
next
  case (Some r)
  then have r: "r = TooManyUrls429"
    using createUrlLimiter_answers [of e ip m] by simp
  from Some obtain m1 where "createUrlLimiter e ip m = (Some r, m1)"
    by (cases "createUrlLimiter e ip m") simp
  then show ?thesis
    using Some r by (simp add: post_shorten_def)
qed

text \<open>
  Claim C2, as the code has it. When \<open>abuseDetection\<close> reads a counter above 50 and no
  block, it writes \<open>blocked:{ip}\<close> with \<open>unblockAt\<close> one hour ahead and a time to live
  of one hour. From then until that hour has passed, a creation request of that address
  served with the cache enabled and reachable is rejected: with 429 and the stored
  \<open>unblockAt\<close> when it reaches \<open>abuseDetection\<close>, with the answer of the creation
  limiter when that limiter stops it first; the shared state is left as it is. After the
  hour the entry is gone. \<open>abuseDetection\<close> is mounted on \<open>POST /api/shorten\<close> only.
\<close>

theorem block_rejects_creations:
  assumes nb: "\<not> truthy (cache_get e (''blocked:'' @ ip) s)"
    and cnt: "cache_get e (''abuse:'' @ ip) s = Some (JNum n)" and over: "50 < n"
    and on: "\<not> cache_disabled e'" and up: "redis_up e'"
  shows "abuseDetection e ip s =
           (Some (NowBlocked429 (now e + 3600000)),
            cache_set e (''blocked:'' @ ip) (JBlock (now e + 3600000)) 3600 s) \<and>
         redis (snd (abuseDetection e ip s)) (''blocked:'' @ ip) =
           Some (JBlock (now e + 3600000), Some (now e + 3600000)) \<and>
         (if now e' < now e + 3600000
          then abuseDetection e' ip (snd (abuseDetection e ip s)) =
                 (Some (StillBlocked429 (Some (now e + 3600000))), snd (abuseDetection e ip s)) \<and>
               fst (post_shorten e' ip url x (m, snd (abuseDetection e ip s))) =
                 (if fst (createUrlLimiter e' ip m) = None
                  then StillBlocked429 (Some (now e + 3600000)) else TooManyUrls429) \<and>
               snd (snd (post_shorten e' ip url x (m, snd (abuseDetection e ip s)))) =
                 snd (abuseDetection e ip s)
          else cache_get e' (''blocked:'' @ ip) (snd (abuseDetection e ip s)) = None)"
proof -
  let ?t = "now e + 3600000"
  let ?s' = "cache_set e (''blocked:'' @ ip) (JBlock ?t) 3600 s"
  have n0: "n \<noteq> 0" using over by simp
  have ad: "abuseDetection e ip s = (Some (NowBlocked429 ?t), ?s')"
    using nb cnt over n0 by (simp add: abuseDetection_def Let_def)
  from cnt have en: "\<not> cache_disabled e" "redis_up e"
    by (auto simp: cache_get_def split: if_splits)
  then have entry: "redis ?s' (''blocked:'' @ ip) = Some (JBlock ?t, Some ?t)"
    by (simp add: cache_set_def)
  have get: "cache_get e' (''blocked:'' @ ip) ?s' = (if now e' < ?t then Some (JBlock ?t) else None)"
    using on up entry by (simp add: cache_get_def live_def)
  show ?thesis
  proof (cases "now e' < ?t")
    case True
    with get have g: "cache_get e' (''blocked:'' @ ip) ?s' = Some (JBlock ?t)" by simp
    show ?thesis
      using ad entry True abuseDetection_blocked [OF g] post_shorten_blocked [OF g, of url x m]
      by simp
  next
    case False
    with get show ?thesis using ad entry by simp
  qed
qed

theorem block_rejects_creations_witness:
  "\<not> truthy (cache_get env0 ''blocked:1.2.3.4'' s_abuse) \<and>
   cache_get env0 ''abuse:1.2.3.4'' s_abuse = Some (JNum 51) \<and>
   \<not> cache_disabled env1 \<and> redis_up env1 \<and>
   abuseDetection env1 ''1.2.3.4'' (snd (abuseDetection env0 ''1.2.3.4'' s_abuse)) =
     (Some (StillBlocked429 (Some 3600000)), snd (abuseDetection env0 ''1.2.3.4'' s_abuse)) \<and>
   fst (post_shorten env1 ''1.2.3.4'' ''http://example.com'' None
          (\<lambda>k. None, snd (abuseDetection env0 ''1.2.3.4'' s_abuse))) =
     StillBlocked429 (Some 3600000)"
proof -
  have h: "\<not> truthy (cache_get env0 (''blocked:'' @ ''1.2.3.4'') s_abuse)"
    "cache_get env0 (''abuse:'' @ ''1.2.3.4'') s_abuse = Some (JNum 51)" "(50::int) < 51"
    "\<not> cache_disabled env1" "redis_up env1"
    by code_simp+
  have t: "now env1 < now env0 + 3600000" "now env0 + 3600000 = 3600000"
    "fst (createUrlLimiter env1 ''1.2.3.4'' (\<lambda>k. None)) = None"
    by code_simp+
  have c: "(if now env1 < now env0 + 3600000 then P else Q) = P" for P Q :: bool
    using t by simp
  from block_rejects_creations [OF h, of "''http://example.com''" None "\<lambda>k. None"]
  have "abuseDetection env1 (''1.2.3.4'') (snd (abuseDetection env0 (''1.2.3.4'') s_abuse)) =
          (Some (StillBlocked429 (Some (now env0 + 3600000))),
           snd (abuseDetection env0 (''1.2.3.4'') s_abuse)) \<and>
        fst (post_shorten env1 (''1.2.3.4'') ''http://example.com'' None
               (\<lambda>k. None, snd (abuseDetection env0 (''1.2.3.4'') s_abuse))) =
          (if fst (createUrlLimiter env1 (''1.2.3.4'') (\<lambda>k. None)) = None
           then StillBlocked429 (Some (now env0 + 3600000)) else TooManyUrls429)"
    unfolding c by blast
  then have "abuseDetection env1 ''1.2.3.4'' (snd (abuseDetection env0 ''1.2.3.4'' s_abuse)) =
     (Some (StillBlocked429 (Some 3600000)), snd (abuseDetection env0 ''1.2.3.4'' s_abuse))"
    and "fst (post_shorten env1 ''1.2.3.4'' ''http://example.com'' None
          (\<lambda>k. None, snd (abuseDetection env0 ''1.2.3.4'' s_abuse))) =
     StillBlocked429 (Some 3600000)"
    unfolding t by simp_all
  with h show ?thesis by simp
qed

text \<open>
  The claim says that redirect requests of a blocked address are rejected too. With the
  block written and in force, the creation request is rejected and the redirect request
  of the same address is served.
\<close>

theorem redirect_served_while_blocked:
  "fst (abuseDetection env0 ''1.2.3.4'' s_abuse) = Some (NowBlocked429 3600000) \<and>
   cache_get env1 ''blocked:1.2.3.4'' s_blocked = Some (JBlock 3600000) \<and>
   fst (app env1 (PostShorten ''1.2.3.4'' ''http://example.com'' None) (\<lambda>k. None, s_blocked)) =
     StillBlocked429 (Some 3600000) \<and>
   fst (app env1 (GetShortCode ''1.2.3.4'' ''0123456'' None None) (\<lambda>k. None, s_blocked)) =
     Redirect301 (Some ''http://example.com'')"
  by code_simp

section \<open>Where the limiters count\<close>

text \<open>
  Claim C4 at a failing input. \<open>createUrlLimiter\<close> is built with no store, so its count
  lives in the memory of the serving process: after ten creations of one address on one
  process (\<open>mem_hits 10\<close>) the eleventh is rejected there, while a second process with
  the same shared state (\<open>s_cached\<close>) and its own empty memory accepts it. The global
  limiter does count in Redis under \<open>ratelimit:{ip}\<close>.
\<close>

theorem create_tier_counts_per_process:
  "snd (createUrlLimiter env0 ''1.2.3.4'' (\<lambda>k. None)) = mem_hits 1 \<and>
   (\<forall>n. snd (createUrlLimiter env0 ''1.2.3.4'' (mem_hits n)) = mem_hits (n + 1)) \<and>
   fst (createUrlLimiter env0 ''1.2.3.4'' (mem_hits 9)) = None \<and>
   fst (post_shorten env0 ''1.2.3.4'' ''http://example.com/b'' None (mem_hits 10, s_cached)) =
     TooManyUrls429 \<and>
   fst (post_shorten env0 ''1.2.3.4'' ''http://example.com/b'' None (\<lambda>k. None, s_cached)) =
     Created201 ''789ABCD'' ''http://example.com/b'' None 0 \<and>
   redis (snd (globalLimiter env0 ''1.2.3.4'' s_cached)) ''ratelimit:1.2.3.4'' =
     Some (JNum 1, Some 900000)"
proof -
  have a: "snd (createUrlLimiter env0 ''1.2.3.4'' (\<lambda>k. None)) = mem_hits 1"
    by (simp add: createUrlLimiter_def over_limit_def memory_increment_def mem_hits_def env0_def fun_eq_iff)
  have b: "snd (createUrlLimiter env0 ''1.2.3.4'' (mem_hits n)) = mem_hits (n + 1)" for n
    by (simp add: createUrlLimiter_def over_limit_def memory_increment_def mem_hits_def env0_def fun_eq_iff)
  have c: "fst (createUrlLimiter env0 ''1.2.3.4'' (mem_hits 9)) = None"
    by code_simp
  have d: "fst (post_shorten env0 ''1.2.3.4'' ''http://example.com/b'' None (mem_hits 10, s_cached)) =
     TooManyUrls429"
    by code_simp
  have e: "fst (post_shorten env0 ''1.2.3.4'' ''http://example.com/b'' None (\<lambda>k. None, s_cached)) =
     Created201 ''789ABCD'' ''http://example.com/b'' None 0"
    by code_simp
  have f: "redis (snd (globalLimiter env0 ''1.2.3.4'' s_cached)) ''ratelimit:1.2.3.4'' =
     Some (JNum 1, Some 900000)"
    by code_simp
  from a b c d e f show ?thesis by blast
qed

section \<open>Creating a mapping\<close>

lemma cache_set_redis:
  "redis (cache_set e k v ttl s) =
     (if \<not> cache_disabled e \<and> redis_up e \<and> 0 < ttl
      then (redis s)(k := Some (v, Some (now e + ttl * 1000))) else redis s)"
  by (simp add: cache_set_def)

lemma cache_get_cong:
  "redis s k = redis s' k \<Longrightarrow> cache_get e k s = cache_get e k s'"
  by (simp add: cache_get_def live_def)

lemma lookup_existing_urls: "urls (snd (lookup_existing e url s)) = urls s"
  by (simp add: lookup_existing_def Let_def cache_set_urls split: option.splits)

lemma lookup_existing_redis_other:
  "k \<noteq> ''url:'' @ url \<Longrightarrow> redis (snd (lookup_existing e url s)) k = redis s k"
  by (simp add: lookup_existing_def Let_def cache_set_redis split: option.splits)

lemma createShortUrl_clean:
  assumes "\<not> isSuspicious url"
  shows "createShortUrl e ip url x s =
     (if truthy (fst (lookup_existing e url s)) \<and> (case x of None \<Rightarrow> True | Some n \<Rightarrow> n = 0)
      then (Existing200 (short_code_of (the (fst (lookup_existing e url s))))
                        (original_url_of (the (fst (lookup_existing e url s)))),
            snd (lookup_existing e url s))
      else
        (case fst (create e url ip x (snd (lookup_existing e url s))) of
           Inl err \<Rightarrow> (ServerError500, snd (create e url ip x (snd (lookup_existing e url s))))
         | Inr newUrl \<Rightarrow>
             (Created201 (short_code newUrl) (original_url newUrl)
                         (expires_at newUrl) (created_at newUrl),
              cache_set e (''url:'' @ url) (JRow newUrl) (default_ttl e)
                (cache_set e (''short:'' @ short_code newUrl) (JRow newUrl) (default_ttl e)
                   (snd (create e url ip x (snd (lookup_existing e url s))))))))"
  using assms
  by (simp add: createShortUrl_def trackSuspiciousUrl_def case_prod_beta split: sum.splits)

lemma createShortUrl_suspicious:
  "isSuspicious url \<Longrightarrow> fst (createShortUrl e ip url x s) = Rejected400"
  by (simp add: createShortUrl_def trackSuspiciousUrl_def)

lemma createShortUrl_Created:
  assumes "createShortUrl e ip url x s = (Created201 c u xa t, s1)"
  obtains row s3 where
    "\<not> isSuspicious url"
    "\<not> (truthy (fst (lookup_existing e url s)) \<and> (case x of None \<Rightarrow> True | Some n \<Rightarrow> n = 0))"
    "create e url ip x (snd (lookup_existing e url s)) = (Inr row, s3)"
    "c = short_code row" "u = original_url row" "xa = expires_at row" "t = created_at row"
    "s1 = cache_set e (''url:'' @ url) (JRow row) (default_ttl e)
            (cache_set e (''short:'' @ c) (JRow row) (default_ttl e) s3)"
proof -
  have ns: "\<not> isSuspicious url"
    using assms createShortUrl_suspicious [of url e ip x s] by auto
  let ?lk = "lookup_existing e url s"
  let ?cr = "create e url ip x (snd ?lk)"
  have ne: "\<not> (truthy (fst ?lk) \<and> (case x of None \<Rightarrow> True | Some n \<Rightarrow> n = 0))"
    using assms unfolding createShortUrl_clean [OF ns] by (auto split: if_splits)
  then have eq: "(case fst ?cr of
           Inl err \<Rightarrow> (ServerError500, snd ?cr)
         | Inr newUrl \<Rightarrow>
             (Created201 (short_code newUrl) (original_url newUrl)
                         (expires_at newUrl) (created_at newUrl),
              cache_set e (''url:'' @ url) (JRow newUrl) (default_ttl e)
                (cache_set e (''short:'' @ short_code newUrl) (JRow newUrl) (default_ttl e)
                   (snd ?cr)))) = (Created201 c u xa t, s1)"
    using assms unfolding createShortUrl_clean [OF ns] by (simp split: if_splits)
  then obtain row where row: "fst ?cr = Inr row"
    by (cases "fst ?cr") simp_all
  then have cr: "?cr = (Inr row, snd ?cr)"
    by (cases ?cr) simp
  from eq row have "c = short_code row" "u = original_url row" "xa = expires_at row"
    "t = created_at row"
    "s1 = cache_set e (''url:'' @ url) (JRow row) (default_ttl e)
            (cache_set e (''short:'' @ c) (JRow row) (default_ttl e) (snd ?cr))"
    by auto
  with ns ne cr show thesis
    using that by blast
qed

lemma no_rows_filter:
  assumes "rows_with_code c db = []"
  shows "filter (\<lambda>r. short_code r = c \<and> P r) db = []"
  using assms by (auto simp: rows_with_code_def filter_empty_conv)

lemma created_short_key:
  assumes "createShortUrl e ip url x s = (Created201 c u xa t, s1)"
  obtains row where
    "rows_with_code c (urls s) = []" "urls s1 = urls s @ [row]"
    "short_code row = c" "original_url row = url" "u = url" "is_active row"
    "created_at row = now e" "t = now e"
    "expires_at row =
       (case x of None \<Rightarrow> None | Some n \<Rightarrow> if n \<noteq> 0 then Some (now e + n * 1000) else None)"
    "xa = expires_at row"
    "redis s1 (''short:'' @ c) = redis s (''short:'' @ c) \<or>
     redis s1 (''short:'' @ c) = Some (JRow row, Some (now e + default_ttl e * 1000))"
proof -
  from createShortUrl_Created [OF assms] obtain row s3 where
    c: "create e url ip x (snd (lookup_existing e url s)) = (Inr row, s3)"
      "c = short_code row" "u = original_url row" "xa = expires_at row" "t = created_at row"
      "s1 = cache_set e (''url:'' @ url) (JRow row) (default_ttl e)
              (cache_set e (''short:'' @ c) (JRow row) (default_ttl e) s3)"
    by blast
  note cr = create_Inr [OF c(1)]
  have u3: "urls s3 = urls s @ [row]"
    using cr(2) by (simp add: lookup_existing_urls)
  have r3: "redis s3 (''short:'' @ c) = redis s (''short:'' @ c)"
    using cr(3) lookup_existing_redis_other [of "''short:'' @ c" url e s] by simp
  have f11: "redis s1 (''short:'' @ c) = redis s (''short:'' @ c) \<or>
     redis s1 (''short:'' @ c) = Some (JRow row, Some (now e + default_ttl e * 1000))"
    unfolding c(6) using r3 by (simp add: cache_set_redis)
  have f2: "urls s1 = urls s @ [row]"
    unfolding c(6) using u3 by (simp add: cache_set_urls)
  have f1: "rows_with_code c (urls s) = []"
    using cr(1) c(2) by (simp add: lookup_existing_urls)
  have f3: "short_code row = c" using c(2) by simp
  have f5: "u = url" using c(3) cr(4) by simp
  have f8: "t = now e" using c(5) cr(6) by simp
  from f1 f2 f3 cr(4) f5 cr(5) cr(6) f8 cr(7) c(4) f11 show thesis
    by (rule that)
qed

text \<open>
  Claim C7, as the code has it. A creation with \<open>expiresIn = 60\<close> that answers 201
  stores an active row that expires 60 seconds later. Up to that time a resolve of the
  code redirects to the URL (the code had no cache entry before the creation). From that
  time on a resolve answers 404 whenever \<open>short:{code}\<close> is not served from the cache,
  and leaves the state, with \<open>is_active\<close> still true, as it is. A resolve that finds
  the entry written at creation, which lives for \<open>REDIS_TTL\<close> (86400) seconds, still
  redirects.
\<close>

theorem expiry_checked_on_store_read:
  assumes cr: "createShortUrl e ip url (Some 60) s = (Created201 c u x t, s1)"
  shows "u = url \<and> x = Some (now e + 60000) \<and>
     (\<exists>r \<in> set (urls s1). short_code r = c \<and> is_active r \<and>
                           expires_at r = Some (now e + 60000)) \<and>
     (now e1 < now e + 60000 \<and> cache_get e1 (''short:'' @ c) s = None \<longrightarrow>
        fst (redirectToOriginal e1 ip1 c ua1 rf1 s1) = Redirect301 (Some url)) \<and>
     (now e + 60000 \<le> now e2 \<and> \<not> truthy (cache_get e2 (''short:'' @ c) s1) \<longrightarrow>
        redirectToOriginal e2 ip2 c ua2 rf2 s1 = (NotFound404, s1))"
proof -
  obtain row where
    raw: "rows_with_code c (urls s) = []" "urls s1 = urls s @ [row]"
      "short_code row = c" "original_url row = url" "u = url" "is_active row"
      "created_at row = now e" "t = now e"
      "expires_at row =
         (case Some (60::int) of None \<Rightarrow> None
          | Some n \<Rightarrow> if n \<noteq> 0 then Some (now e + n * 1000) else None)"
      "x = expires_at row"
      "redis s1 (''short:'' @ c) = redis s (''short:'' @ c) \<or>
       redis s1 (''short:'' @ c) = Some (JRow row, Some (now e + default_ttl e * 1000))"
    by (rule created_short_key [OF cr])
  have row: "rows_with_code c (urls s) = []" "urls s1 = urls s @ [row]"
      "short_code row = c" "original_url row = url" "u = url" "is_active row"
      "expires_at row = Some (now e + 60000)" "x = expires_at row"
      "redis s1 (''short:'' @ c) = redis s (''short:'' @ c) \<or>
       redis s1 (''short:'' @ c) = Some (JRow row, Some (now e + default_ttl e * 1000))"
    using raw by simp_all
  have stored: "\<exists>r \<in> set (urls s1). short_code r = c \<and> is_active r \<and>
                           expires_at r = Some (now e + 60000)"
    using row by auto
  have early: "fst (redirectToOriginal e1 ip1 c ua1 rf1 s1) = Redirect301 (Some url)"
    if t: "now e1 < now e + 60000" and fresh: "cache_get e1 (''short:'' @ c) s = None"
  proof -
    have vis: "visible e1 row"
      using row(6,7) t by (simp add: visible_def)
    have db: "findByShortCode e1 c s1 = Some row"
      using vis row(3) no_rows_filter [OF row(1)]
      by (simp add: findByShortCode_def first_row_def row(2))
    from row(9) have "cache_get e1 (''short:'' @ c) s1 = None \<or>
        cache_get e1 (''short:'' @ c) s1 = Some (JRow row)"
    proof
      assume "redis s1 (''short:'' @ c) = redis s (''short:'' @ c)"
      then have "cache_get e1 (''short:'' @ c) s1 = cache_get e1 (''short:'' @ c) s"
        by (rule cache_get_cong)
      then show ?thesis using fresh by simp
    next
      assume "redis s1 (''short:'' @ c) = Some (JRow row, Some (now e + default_ttl e * 1000))"
      then show ?thesis by (simp add: cache_get_def live_def)
    qed
    then show ?thesis
    proof
      assume "cache_get e1 (''short:'' @ c) s1 = None"
      then show ?thesis using db row(4) by (simp add: redirectToOriginal_def)
    next
      assume "cache_get e1 (''short:'' @ c) s1 = Some (JRow row)"
      then show ?thesis using row(4) by (simp add: redirectToOriginal_def)
    qed
  qed
  have late: "redirectToOriginal e2 ip2 c ua2 rf2 s1 = (NotFound404, s1)"
    if t: "now e + 60000 \<le> now e2" and miss: "\<not> truthy (cache_get e2 (''short:'' @ c) s1)"
  proof -
    have "\<not> visible e2 row"
      using row(7) t by (simp add: visible_def)
    then have "findByShortCode e2 c s1 = None"
      using no_rows_filter [OF row(1)]
      by (simp add: findByShortCode_def first_row_def row(2))
    then show ?thesis using miss by (simp add: redirectToOriginal_def)
  qed
  show ?thesis
    using row(5,7,8) stored early late by simp
qed

theorem expiry_checked_on_store_read_witness:
  "createShortUrl env0 ''1.2.3.4'' ''http://example.com'' (Some 60) s_empty =
     (Created201 ''0123456'' ''http://example.com'' (Some 60000) 0,
      snd (createShortUrl env0 ''1.2.3.4'' ''http://example.com'' (Some 60) s_empty)) \<and>
   now env0 < now env0 + 60000 \<and> cache_get env0 ''short:0123456'' s_empty = None \<and>
   fst (redirectToOriginal env0 ''5.6.7.8'' ''0123456'' None None
          (snd (createShortUrl env0 ''1.2.3.4'' ''http://example.com'' (Some 60) s_empty))) =
     Redirect301 (Some ''http://example.com'') \<and>
   now env0 + 60000 \<le> now env_off_later \<and>
   \<not> truthy (cache_get env_off_later ''short:0123456''
               (snd (createShortUrl env0 ''1.2.3.4'' ''http://example.com'' (Some 60) s_empty))) \<and>
   fst (redirectToOriginal env_off_later ''5.6.7.8'' ''0123456'' None None
          (snd (createShortUrl env0 ''1.2.3.4'' ''http://example.com'' (Some 60) s_empty))) =
     NotFound404"
proof -
  let ?s1 = "snd (createShortUrl env0 ''1.2.3.4'' ''http://example.com'' (Some 60) s_empty)"
  have "fst (createShortUrl env0 ''1.2.3.4'' ''http://example.com'' (Some 60) s_empty) =
     Created201 ''0123456'' ''http://example.com'' (Some 60000) 0"
    by code_simp
  then have cr: "createShortUrl env0 ''1.2.3.4'' ''http://example.com'' (Some 60) s_empty =
     (Created201 ''0123456'' ''http://example.com'' (Some 60000) 0, ?s1)"
    by (simp add: prod_eq_iff)
  have h1: "now env0 < now env0 + 60000" "cache_get env0 (''short:'' @ ''0123456'') s_empty = None"
    by code_simp+
  have h2: "now env0 + 60000 \<le> now env_off_later"
    by code_simp
  have h3: "\<not> truthy (cache_get env_off_later (''short:'' @ ''0123456'') ?s1)"
    by (simp add: cache_get_def cache_disabled_def env_off_later_def env_off_def)
  note inst = expiry_checked_on_store_read [OF cr,
      of env0 "''5.6.7.8''" None None env_off_later "''5.6.7.8''" None None]
  from inst h1 have a: "fst (redirectToOriginal env0 ''5.6.7.8'' ''0123456'' None None ?s1) =
     Redirect301 (Some ''http://example.com'')"
    by blast
  from inst h2 h3 have "redirectToOriginal env_off_later ''5.6.7.8'' ''0123456'' None None ?s1 =
     (NotFound404, ?s1)"
    by blast
  then have b: "fst (redirectToOriginal env_off_later ''5.6.7.8'' ''0123456'' None None ?s1) =
     NotFound404"
    by simp
  from cr h1 h2 h3 a b show ?thesis by simp
qed

text \<open>
  The claim says that every resolve later than 60 seconds after the creation answers 404.
  With caching enabled, the entry \<open>short:0123456\<close> written by the creation is still
  there 61 seconds later and the resolve redirects.
\<close>

theorem expired_record_served_from_cache:
  "createShortUrl env0 ''1.2.3.4'' ''http://example.com'' (Some 60) s_empty =
     (Created201 ''0123456'' ''http://example.com'' (Some 60000) 0,
      snd (createShortUrl env0 ''1.2.3.4'' ''http://example.com'' (Some 60) s_empty)) \<and>
   fst (redirectToOriginal env_later ''5.6.7.8'' ''0123456'' None None
          (snd (createShortUrl env0 ''1.2.3.4'' ''http://example.com'' (Some 60) s_empty))) =
     Redirect301 (Some ''http://example.com'')"
proof -
  have "fst (createShortUrl env0 ''1.2.3.4'' ''http://example.com'' (Some 60) s_empty) =
     Created201 ''0123456'' ''http://example.com'' (Some 60000) 0"
    by code_simp
  moreover have "fst (redirectToOriginal env_later ''5.6.7.8'' ''0123456'' None None
          (snd (createShortUrl env0 ''1.2.3.4'' ''http://example.com'' (Some 60) s_empty))) =
     Redirect301 (Some ''http://example.com'')"
    by code_simp
  ultimately show ?thesis by (simp add: prod_eq_iff)
qed

section \<open>Creating twice\<close>

lemma newest_None: "(newest rs = None) = (rs = [])"
  by (induction rs) (auto split: option.splits)

lemma cache_get_quiet:
  assumes "cache_disabled e2 = cache_disabled e1" "redis_up e2 = redis_up e1"
    and "now e1 \<le> now e2"
    and "case redis s k of None \<Rightarrow> True | Some (v, None) \<Rightarrow> True
         | Some (v, Some x) \<Rightarrow> x \<le> now e1 \<or> now e2 < x"
  shows "cache_get e2 k s = cache_get e1 k s"
  using assms by (auto simp: cache_get_def live_def split: option.splits prod.splits)

lemma visible_quiet:
  assumes "now e1 \<le> now e2"
    and "case expires_at r of None \<Rightarrow> True | Some x \<Rightarrow> x \<le> now e1 \<or> now e2 < x"
  shows "visible e2 r = visible e1 r"
  using assms by (auto simp: visible_def split: option.splits)

lemma url_rows_quiet:
  assumes "now e1 \<le> now e2"
    and "list_all (\<lambda>r. original_url r = url \<longrightarrow>
                  (case expires_at r of None \<Rightarrow> True | Some x \<Rightarrow> x \<le> now e1 \<or> now e2 < x)) db"
  shows "filter (\<lambda>r. original_url r = url \<and> visible e2 r) db =
         filter (\<lambda>r. original_url r = url \<and> visible e1 r) db"
proof (rule filter_cong [OF refl])
  fix r assume "r \<in> set db"
  with assms(2) have "original_url r = url \<longrightarrow>
      (case expires_at r of None \<Rightarrow> True | Some x \<Rightarrow> x \<le> now e1 \<or> now e2 < x)"
    by (simp add: list_all_iff)
  then show "(original_url r = url \<and> visible e2 r) = (original_url r = url \<and> visible e1 r)"
    using visible_quiet [OF assms(1), of r] by blast
qed

lemma cache_set_idle:
  "\<not> (\<not> cache_disabled e \<and> redis_up e \<and> 0 < ttl) \<Longrightarrow> cache_set e k v ttl s = s"
  by (auto simp: cache_set_def)

lemma lookup_again:
  assumes fl: "cache_disabled e2 = cache_disabled e1" "redis_up e2 = redis_up e1"
    and tm: "now e1 \<le> now e2"
    and q: "quiet (snd (lookup_existing e1 url s)) url (now e1) (now e2)"
    and tr: "truthy (fst (lookup_existing e1 url s))"
  shows "fst (lookup_existing e2 url (snd (lookup_existing e1 url s))) =
         fst (lookup_existing e1 url s)"
proof (cases "truthy (cache_get e1 (''url:'' @ url) s)")
  case True
  then have lk: "lookup_existing e1 url s = (cache_get e1 (''url:'' @ url) s, s)"
    by (simp add: lookup_existing_def)
  with q have "quiet s url (now e1) (now e2)" by simp
  then have "cache_get e2 (''url:'' @ url) s = cache_get e1 (''url:'' @ url) s"
    using cache_get_quiet [OF fl tm] by (simp add: quiet_def)
  with True have "lookup_existing e2 url s = (cache_get e1 (''url:'' @ url) s, s)"
    by (simp add: lookup_existing_def)
  with lk show ?thesis by simp
next
  case False
  show ?thesis
  proof (cases "findByOriginalUrl e1 url s")
    case None
    with False have "lookup_existing e1 url s = (None, s)"
      by (simp add: lookup_existing_def)
    with tr show ?thesis by simp
  next
    case (Some r)
    let ?s2 = "cache_set e1 (''url:'' @ url) (JRow r) (default_ttl e1) s"
    from False Some have lk: "lookup_existing e1 url s = (Some (JRow r), ?s2)"
      by (simp add: lookup_existing_def)
    with q have q2: "quiet ?s2 url (now e1) (now e2)" by simp
    show ?thesis
    proof (cases "\<not> cache_disabled e1 \<and> redis_up e1 \<and> 0 < default_ttl e1")
      case True
      then have entry: "redis ?s2 (''url:'' @ url) =
          Some (JRow r, Some (now e1 + default_ttl e1 * 1000))"
        by (simp add: cache_set_redis)
      with q2 True have "now e2 < now e1 + default_ttl e1 * 1000"
        by (simp add: quiet_def)
      with entry True fl have "cache_get e2 (''url:'' @ url) ?s2 = Some (JRow r)"
        by (simp add: cache_get_def live_def)
      then have "lookup_existing e2 url ?s2 = (Some (JRow r), ?s2)"
        by (simp add: lookup_existing_def)
      with lk show ?thesis by simp
    next
      case idle: False
      then have same: "?s2 = s" by (rule cache_set_idle)
      with q2 have qs: "quiet s url (now e1) (now e2)" by simp
      then have "cache_get e2 (''url:'' @ url) s = cache_get e1 (''url:'' @ url) s"
        using cache_get_quiet [OF fl tm] by (simp add: quiet_def)
      moreover have "findByOriginalUrl e2 url s = Some r"
        using Some url_rows_quiet [OF tm, of url "urls s"] qs
        by (simp add: findByOriginalUrl_def quiet_def)
      ultimately have "fst (lookup_existing e2 url s) = Some (JRow r)"
        using False by (simp add: lookup_existing_def)
      with lk same show ?thesis by simp
    qed
  qed
qed

lemma lookup_falsy:
  assumes "\<not> truthy (fst (lookup_existing e url s))"
  shows "\<not> truthy (cache_get e (''url:'' @ url) s)" and "findByOriginalUrl e url s = None"
    and "snd (lookup_existing e url s) = s"
  using assms by (auto simp: lookup_existing_def Let_def split: if_splits option.splits)

lemma lookup_after_create:
  assumes fl: "cache_disabled e2 = cache_disabled e1" "redis_up e2 = redis_up e1"
    and tm: "now e1 \<le> now e2"
    and nt: "\<not> truthy (fst (lookup_existing e1 url s))"
    and cr: "create e1 url ip None (snd (lookup_existing e1 url s)) = (Inr row, s3)"
    and s1: "s1 = cache_set e1 (''url:'' @ url) (JRow row) (default_ttl e1)
                   (cache_set e1 (''short:'' @ c) (JRow row) (default_ttl e1) s3)"
    and q: "quiet s1 url (now e1) (now e2)"
  shows "fst (lookup_existing e2 url s1) = Some (JRow row)"
proof -
  note lf = lookup_falsy [OF nt]
  note ci = create_Inr [OF cr]
  have u1: "urls s1 = urls s @ [row]"
    unfolding s1 using ci(2) lf(3) by (simp add: cache_set_urls)
  have rowv: "original_url row = url" "visible e2 row"
    using ci(4,5,7) by (simp_all add: visible_def)
  show ?thesis
  proof (cases "\<not> cache_disabled e1 \<and> redis_up e1 \<and> 0 < default_ttl e1")
    case True
    then have entry: "redis s1 (''url:'' @ url) =
        Some (JRow row, Some (now e1 + default_ttl e1 * 1000))"
      unfolding s1 by (simp add: cache_set_redis)
    with q True have "now e2 < now e1 + default_ttl e1 * 1000"
      by (simp add: quiet_def)
    with entry True fl have "cache_get e2 (''url:'' @ url) s1 = Some (JRow row)"
      by (simp add: cache_get_def live_def)
    then show ?thesis
      by (simp add: lookup_existing_def)
  next
    case idle: False
    have "s1 = s3"
      unfolding s1 using cache_set_idle [OF idle] by simp
    then have r1: "redis s1 = redis s"
      using ci(3) lf(3) by simp
    have "cache_get e2 (''url:'' @ url) s1 = cache_get e1 (''url:'' @ url) s1"
      using cache_get_quiet [OF fl tm] q by (simp add: quiet_def)
    also have "\<dots> = cache_get e1 (''url:'' @ url) s"
      by (rule cache_get_cong) (simp add: r1)
    finally have miss: "\<not> truthy (cache_get e2 (''url:'' @ url) s1)"
      using lf(1) by simp
    have "list_all (\<lambda>r. original_url r = url \<longrightarrow>
              (case expires_at r of None \<Rightarrow> True | Some x \<Rightarrow> x \<le> now e1 \<or> now e2 < x))
            (urls s)"
      using q by (simp add: quiet_def u1)
    then have "filter (\<lambda>r. original_url r = url \<and> visible e2 r) (urls s) =
          filter (\<lambda>r. original_url r = url \<and> visible e1 r) (urls s)"
      by (rule url_rows_quiet [OF tm])
    moreover have "filter (\<lambda>r. original_url r = url \<and> visible e1 r) (urls s) = []"
      using lf(2) by (simp add: findByOriginalUrl_def newest_None)
    ultimately have "filter (\<lambda>r. original_url r = url \<and> visible e2 r) (urls s) = []"
      by simp
    then have "filter (\<lambda>r. original_url r = url \<and> visible e2 r) (urls s1) = [row]"
      using rowv by (simp add: u1)
    then have "findByOriginalUrl e2 url s1 = Some row"
      by (simp add: findByOriginalUrl_def)
    with miss show ?thesis
      by (simp add: lookup_existing_def)
  qed
qed

lemma createShortUrl_Existing:
  assumes "createShortUrl e ip url x s = (Existing200 a b, s1)"
  shows "\<not> isSuspicious url" and "truthy (fst (lookup_existing e url s))"
    and "a = short_code_of (the (fst (lookup_existing e url s)))"
    and "b = original_url_of (the (fst (lookup_existing e url s)))"
    and "s1 = snd (lookup_existing e url s)"
proof -
  show ns: "\<not> isSuspicious url"
    using assms createShortUrl_suspicious [of url e ip x s] by auto
  have eq: "(if truthy (fst (lookup_existing e url s)) \<and>
                (case x of None \<Rightarrow> True | Some n \<Rightarrow> n = 0)
      then (Existing200 (short_code_of (the (fst (lookup_existing e url s))))
                        (original_url_of (the (fst (lookup_existing e url s)))),
            snd (lookup_existing e url s))
      else
        (case fst (create e url ip x (snd (lookup_existing e url s))) of
           Inl err \<Rightarrow> (ServerError500, snd (create e url ip x (snd (lookup_existing e url s))))
         | Inr newUrl \<Rightarrow>
             (Created201 (short_code newUrl) (original_url newUrl)
                         (expires_at newUrl) (created_at newUrl),
              cache_set e (''url:'' @ url) (JRow newUrl) (default_ttl e)
                (cache_set e (''short:'' @ short_code newUrl) (JRow newUrl) (default_ttl e)
                   (snd (create e url ip x (snd (lookup_existing e url s)))))))) =
      (Existing200 a b, s1)"
    using assms unfolding createShortUrl_clean [OF ns] .
  have tr: "truthy (fst (lookup_existing e url s)) \<and>
                (case x of None \<Rightarrow> True | Some n \<Rightarrow> n = 0)"
  proof (rule ccontr)
    assume "\<not> ?thesis"
    with eq show False
      by (cases "fst (create e url ip x (snd (lookup_existing e url s)))") simp_all
  qed
  then show "truthy (fst (lookup_existing e url s))" by simp
  from eq tr show "a = short_code_of (the (fst (lookup_existing e url s)))"
    and "b = original_url_of (the (fst (lookup_existing e url s)))"
    and "s1 = snd (lookup_existing e url s)"
    by simp_all
qed

lemma second_call_existing:
  assumes "\<not> isSuspicious url" and "fst (lookup_existing e url s) = Some v" and "truthy (Some v)"
  shows "fst (createShortUrl e ip url None s) = Existing200 (short_code_of v) (original_url_of v)"
  using assms by (simp add: createShortUrl_clean)

lemma create_fresh:
  assumes "rows_with_code (generateUniqueShortCode 5 (entropy e) (urls s)) (urls s) = []"
    and "n \<noteq> 0" and "valid_date (now e + n * 1000)"
  shows "\<exists>row. fst (create e url ip (Some n) s) = Inr row \<and>
           urls (snd (create e url ip (Some n) s)) = urls s @ [row] \<and>
           short_code row = generateUniqueShortCode 5 (entropy e) (urls s) \<and>
           original_url row = url \<and> created_at row = now e \<and> is_active row \<and>
           expires_at row = Some (now e + n * 1000)"
  using assms by (simp add: create_def Let_def)

lemma create_with_expiry:
  assumes n: "n \<noteq> 0" and vd: "valid_date (now e + n * 1000)" and ns: "\<not> isSuspicious url"
    and fresh: "rows_with_code (generateUniqueShortCode 5 (entropy e) (urls s)) (urls s) = []"
  shows "fst (createShortUrl e ip url (Some n) s) =
        Created201 (generateUniqueShortCode 5 (entropy e) (urls s)) url
                   (Some (now e + n * 1000)) (now e) \<and>
      (\<exists>row. urls (snd (createShortUrl e ip url (Some n) s)) = urls s @ [row] \<and>
             short_code row = generateUniqueShortCode 5 (entropy e) (urls s) \<and>
             original_url row = url \<and> expires_at row = Some (now e + n * 1000) \<and>
             is_active row)"
proof -
  let ?s2 = "snd (lookup_existing e url s)"
  have u2: "urls ?s2 = urls s" by (rule lookup_existing_urls)
  have fresh2: "rows_with_code (generateUniqueShortCode 5 (entropy e) (urls ?s2)) (urls ?s2) = []"
    using fresh u2 by simp
  from create_fresh [OF fresh2 n vd, of url ip] u2
  obtain row where row: "fst (create e url ip (Some n) ?s2) = Inr row"
    "urls (snd (create e url ip (Some n) ?s2)) = urls s @ [row]"
    "short_code row = generateUniqueShortCode 5 (entropy e) (urls s)"
    "original_url row = url" "created_at row = now e" "is_active row"
    "expires_at row = Some (now e + n * 1000)"
    by auto
  have r: "createShortUrl e ip url (Some n) s =
      (Created201 (short_code row) (original_url row) (expires_at row) (created_at row),
       cache_set e (''url:'' @ url) (JRow row) (default_ttl e)
         (cache_set e (''short:'' @ short_code row) (JRow row) (default_ttl e)
            (snd (create e url ip (Some n) ?s2))))"
    using n row(1) by (simp add: createShortUrl_clean [OF ns])
  have "urls (snd (createShortUrl e ip url (Some n) s)) = urls s @ [row]"
    unfolding r using row(2) by (simp add: cache_set_urls)
  moreover have "fst (createShortUrl e ip url (Some n) s) =
        Created201 (generateUniqueShortCode 5 (entropy e) (urls s)) url
                   (Some (now e + n * 1000)) (now e)"
    unfolding r using row(3,4,5,7) by simp
  ultimately show ?thesis using row(3,4,6,7) by blast
qed

lemma repeat_after_created:
  assumes first: "createShortUrl e1 ip url None s = (Created201 c u x t, s1)"
    and fl: "cache_disabled e2 = cache_disabled e1" "redis_up e2 = redis_up e1"
    and tm: "now e1 \<le> now e2"
    and q: "quiet s1 url (now e1) (now e2)"
  shows "fst (createShortUrl e2 ip2 url None s1) = Existing200 (Some c) (Some url)"
proof -
  from createShortUrl_Created [OF first] obtain row s3 where
    f: "\<not> isSuspicious url"
      "\<not> (truthy (fst (lookup_existing e1 url s)) \<and>
          (case None :: int option of None \<Rightarrow> True | Some n \<Rightarrow> n = 0))"
      "create e1 url ip None (snd (lookup_existing e1 url s)) = (Inr row, s3)"
      "c = short_code row"
      "s1 = cache_set e1 (''url:'' @ url) (JRow row) (default_ttl e1)
              (cache_set e1 (''short:'' @ c) (JRow row) (default_ttl e1) s3)"
    by blast
  from f(2) have nt: "\<not> truthy (fst (lookup_existing e1 url s))" by simp
  have "fst (lookup_existing e2 url s1) = Some (JRow row)"
    by (rule lookup_after_create [OF fl tm nt f(3) f(5) q])
  then have "fst (createShortUrl e2 ip2 url None s1) =
      Existing200 (short_code_of (JRow row)) (original_url_of (JRow row))"
    by (rule second_call_existing [OF f(1)]) simp
  then show ?thesis
    using f(4) create_Inr(4) [OF f(3)] by simp
qed

lemma repeat_after_existing:
  assumes first: "createShortUrl e1 ip url None s = (Existing200 a b, s1)"
    and fl: "cache_disabled e2 = cache_disabled e1" "redis_up e2 = redis_up e1"
    and tm: "now e1 \<le> now e2"
    and q: "quiet s1 url (now e1) (now e2)"
  shows "fst (createShortUrl e2 ip2 url None s1) = Existing200 a b"
proof -
  note f = createShortUrl_Existing [OF first]
  from f(2) obtain v where v: "fst (lookup_existing e1 url s) = Some v"
    by (cases "fst (lookup_existing e1 url s)") simp_all
  from q f(5) have q': "quiet (snd (lookup_existing e1 url s)) url (now e1) (now e2)"
    by simp
  have "fst (lookup_existing e2 url (snd (lookup_existing e1 url s))) = Some v"
    using lookup_again [OF fl tm q' f(2)] v by simp
  then have l2: "fst (lookup_existing e2 url s1) = Some v"
    using f(5) by simp
  have "truthy (Some v)" using f(2) v by simp
  with l2 have "fst (createShortUrl e2 ip2 url None s1) =
      Existing200 (short_code_of v) (original_url_of v)"
    by (rule second_call_existing [OF f(1)])
  then show ?thesis using f(3,4) v by simp
qed

text \<open>
  Claim C3, as the code has it. When a first creation with no expiry answered with a
  record (newly created, or an existing one), a second creation for the same URL with no
  expiry answers with the same short code and \<open>existing: true\<close>, provided that the two
  calls see the cache in the same condition and that between them neither the cache entry
  of the URL nor a row of the URL expires (\<open>quiet\<close>). A creation with an explicit
  expiry in the validator's range, for a URL that matches no suspicious pattern, creates a
  new row whatever rows of that URL exist, provided that the expiry time is a date and
  the generated code is not already taken (which only the unchecked 10-symbol code can
  be).
\<close>

theorem create_reuses_unless_expiry_given:
  "(createShortUrl e ip url None s = (r, sa) \<and>
    cache_disabled e' = cache_disabled e \<and> redis_up e' = redis_up e \<and>
    now e \<le> now e' \<and> quiet sa url (now e) (now e') \<longrightarrow>
      (\<forall>c u x t. r = Created201 c u x t \<longrightarrow>
         fst (createShortUrl e' ip' url None sa) = Existing200 (Some c) (Some url)) \<and>
      (\<forall>a b. r = Existing200 a b \<longrightarrow>
         fst (createShortUrl e' ip' url None sa) = Existing200 a b)) \<and>
   (60 \<le> n \<and> n \<le> 31536000 \<and> valid_date (now en + n * 1000) \<and> \<not> isSuspicious urln \<and>
    rows_with_code (generateUniqueShortCode 5 (entropy en) (urls sn)) (urls sn) = [] \<longrightarrow>
      fst (createShortUrl en ipn urln (Some n) sn) =
        Created201 (generateUniqueShortCode 5 (entropy en) (urls sn)) urln
                   (Some (now en + n * 1000)) (now en) \<and>
      (\<exists>row. urls (snd (createShortUrl en ipn urln (Some n) sn)) = urls sn @ [row] \<and>
             short_code row = generateUniqueShortCode 5 (entropy en) (urls sn) \<and>
             original_url row = urln \<and> expires_at row = Some (now en + n * 1000) \<and>
             is_active row))"
proof (intro conjI impI allI)
  fix c u x t
  assume h: "createShortUrl e ip url None s = (r, sa) \<and>
    cache_disabled e' = cache_disabled e \<and> redis_up e' = redis_up e \<and>
    now e \<le> now e' \<and> quiet sa url (now e) (now e')"
    and r: "r = Created201 c u x t"
  from h r have first: "createShortUrl e ip url None s = (Created201 c u x t, sa)" by simp
  from h show "fst (createShortUrl e' ip' url None sa) = Existing200 (Some c) (Some url)"
    using repeat_after_created [OF first] by blast
next
  fix a b
  assume h: "createShortUrl e ip url None s = (r, sa) \<and>
    cache_disabled e' = cache_disabled e \<and> redis_up e' = redis_up e \<and>
    now e \<le> now e' \<and> quiet sa url (now e) (now e')"
    and r: "r = Existing200 a b"
  from h r have first: "createShortUrl e ip url None s = (Existing200 a b, sa)" by simp
  from h show "fst (createShortUrl e' ip' url None sa) = Existing200 a b"
    using repeat_after_existing [OF first] by blast
next
  assume h: "60 \<le> n \<and> n \<le> 31536000 \<and> valid_date (now en + n * 1000) \<and>
    \<not> isSuspicious urln \<and>
    rows_with_code (generateUniqueShortCode 5 (entropy en) (urls sn)) (urls sn) = []"
  then have n: "n \<noteq> 0" and vd: "valid_date (now en + n * 1000)" by auto
  from h create_with_expiry [OF n vd, of urln sn ipn]
  show "fst (createShortUrl en ipn urln (Some n) sn) =
        Created201 (generateUniqueShortCode 5 (entropy en) (urls sn)) urln
                   (Some (now en + n * 1000)) (now en)"
    and "\<exists>row. urls (snd (createShortUrl en ipn urln (Some n) sn)) = urls sn @ [row] \<and>
             short_code row = generateUniqueShortCode 5 (entropy en) (urls sn) \<and>
             original_url row = urln \<and> expires_at row = Some (now en + n * 1000) \<and>
             is_active row"
    by blast+
qed

theorem create_reuses_unless_expiry_given_witness:
  "createShortUrl env0 ''1.2.3.4'' ''http://example.com'' None s_empty =
     (Created201 ''0123456'' ''http://example.com'' None 0, s_once) \<and>
   cache_disabled env1 = cache_disabled env0 \<and> redis_up env1 = redis_up env0 \<and>
   now env0 \<le> now env1 \<and> quiet s_once ''http://example.com'' (now env0) (now env1) \<and>
   fst (createShortUrl env1 ''5.6.7.8'' ''http://example.com'' None s_once) =
     Existing200 (Some ''0123456'') (Some ''http://example.com'') \<and>
   valid_date (now env0 + 60 * 1000) \<and>
   \<not> isSuspicious ''http://example.com'' \<and>
   findByOriginalUrl env0 ''http://example.com'' s_cached = Some row1 \<and>
   rows_with_code (generateUniqueShortCode 5 (entropy env0) (urls s_cached)) (urls s_cached) = [] \<and>
   fst (createShortUrl env0 ''1.2.3.4'' ''http://example.com'' (Some 60) s_cached) =
     Created201 ''789ABCD'' ''http://example.com'' (Some 60000) 0"
proof -
  have "fst (createShortUrl env0 ''1.2.3.4'' ''http://example.com'' None s_empty) =
     Created201 ''0123456'' ''http://example.com'' None 0"
    by code_simp
  then have first: "createShortUrl env0 ''1.2.3.4'' ''http://example.com'' None s_empty =
     (Created201 ''0123456'' ''http://example.com'' None 0, s_once)"
    by (simp add: prod_eq_iff s_once_def)
  have fl: "cache_disabled env1 = cache_disabled env0" "redis_up env1 = redis_up env0"
    "now env0 \<le> now env1"
    by code_simp+
  have q: "quiet s_once ''http://example.com'' (now env0) (now env1)"
    by code_simp
  have b: "(60::int) \<le> 60" "(60::int) \<le> 31536000" "valid_date (now env0 + 60 * 1000)"
    "\<not> isSuspicious ''http://example.com''"
    "rows_with_code (generateUniqueShortCode 5 (entropy env0) (urls s_cached)) (urls s_cached) = []"
    by code_simp+
  have ex: "findByOriginalUrl env0 ''http://example.com'' s_cached = Some row1"
    by code_simp
  have v: "generateUniqueShortCode 5 (entropy env0) (urls s_cached) = ''789ABCD''"
    "now env0 + 60 * 1000 = 60000" "now env0 = 0"
    by code_simp+
  note inst = create_reuses_unless_expiry_given
    [where e = env0 and ip = "''1.2.3.4''" and url = "''http://example.com''" and s = s_empty
       and r = "Created201 ''0123456'' ''http://example.com'' None 0" and sa = s_once
       and e' = env1 and ip' = "''5.6.7.8''" and n = 60 and urln = "''http://example.com''"
       and en = env0 and sn = s_cached and ipn = "''1.2.3.4''"]
  from inst first fl q
  have again: "fst (createShortUrl env1 ''5.6.7.8'' ''http://example.com'' None s_once) =
     Existing200 (Some ''0123456'') (Some ''http://example.com'')"
    by blast
  from inst b
  have "fst (createShortUrl env0 ''1.2.3.4'' ''http://example.com'' (Some 60) s_cached) =
     Created201 (generateUniqueShortCode 5 (entropy env0) (urls s_cached)) ''http://example.com''
                (Some (now env0 + 60 * 1000)) (now env0)"
    by blast
  then have fresh: "fst (createShortUrl env0 ''1.2.3.4'' ''http://example.com'' (Some 60) s_cached) =
     Created201 ''789ABCD'' ''http://example.com'' (Some 60000) 0"
    unfolding v by simp
  from first fl q again b ex fresh show ?thesis by blast
qed

text \<open>
  The claim says that for every valid URL a second creation with no expiry returns the
  record of the first, and that every creation with an explicit expiry creates a record.
  With caching disabled and a row of the URL that expires at 60000, a creation at 59999
  answers with that row and a creation at 60001 creates another one. A URL that the
  validator accepts and that matches a pattern is answered 400 both times. And a creation
  with an explicit expiry whose attempts and 10-symbol code all collide is answered 500.
\<close>

theorem create_twice_differs:
  "fst (createShortUrl env_off_before ''1.2.3.4'' ''http://example.com'' None s_expiring) =
     Existing200 (Some ''0123456'') (Some ''http://example.com'') \<and>
   fst (createShortUrl env_off_after ''1.2.3.4'' ''http://example.com'' None
          (snd (createShortUrl env_off_before ''1.2.3.4'' ''http://example.com'' None
                  s_expiring))) =
     Created201 ''789ABCD'' ''http://example.com'' None 60001 \<and>
   validateUrlCreation env0 ''http://bit.ly/a'' None \<and>
   fst (createShortUrl env0 ''1.2.3.4'' ''http://bit.ly/a'' None s_empty) = Rejected400 \<and>
   fst (createShortUrl env0 ''1.2.3.4'' ''http://bit.ly/a'' None
          (snd (createShortUrl env0 ''1.2.3.4'' ''http://bit.ly/a'' None s_empty))) =
     Rejected400 \<and>
   validateUrlCreation env_zero ''http://example.com'' (Some 60) \<and>
   fst (createShortUrl env_zero ''1.2.3.4'' ''http://example.com'' (Some 60) s_full) =
     ServerError500"
proof -
  have a: "fst (createShortUrl env_off_before ''1.2.3.4'' ''http://example.com'' None s_expiring) =
     Existing200 (Some ''0123456'') (Some ''http://example.com'')"
    by code_simp
  have b: "fst (createShortUrl env_off_after ''1.2.3.4'' ''http://example.com'' None
          (snd (createShortUrl env_off_before ''1.2.3.4'' ''http://example.com'' None
                  s_expiring))) =
     Created201 ''789ABCD'' ''http://example.com'' None 60001"
    by code_simp
  have c: "validateUrlCreation env0 ''http://bit.ly/a'' None"
    "fst (createShortUrl env0 ''1.2.3.4'' ''http://bit.ly/a'' None s_empty) = Rejected400"
    by code_simp+
  have d: "fst (createShortUrl env0 ''1.2.3.4'' ''http://bit.ly/a'' None
          (snd (createShortUrl env0 ''1.2.3.4'' ''http://bit.ly/a'' None s_empty))) =
     Rejected400"
    by code_simp
  have f: "validateUrlCreation env_zero ''http://example.com'' (Some 60)"
    "fst (createShortUrl env_zero ''1.2.3.4'' ''http://example.com'' (Some 60) s_full) =
     ServerError500"
    by code_simp+
  from a b c d f show ?thesis by blast
qed

end
